theory Spec2Isabelle
  imports Complex_Main "HOL-Library.AList"
begin

section \<open>Values of the gas-table cache\<close>

text \<open>
  The script \<^verbatim>\<open>scripts/gas_calculator.py\<close> keeps one JSON file,
  \<^verbatim>\<open>stableswap_pools_gas_estimates.json\<close>, that maps a pool address to the gas table
  computed for it. The values that \<^verbatim>\<open>json.load\<close> returns, and that the script handles
  without any type check, are Python's \<^verbatim>\<open>None\<close>, \<^verbatim>\<open>bool\<close>, \<^verbatim>\<open>int\<close>,
  \<^verbatim>\<open>float\<close>, \<^verbatim>\<open>str\<close>, \<^verbatim>\<open>list\<close> and \<^verbatim>\<open>dict\<close> with string keys.

  A \<^verbatim>\<open>dict\<close> is an association list in insertion order, which is the order Python
  keeps; a \<^verbatim>\<open>float\<close> is the rational number that a finite double denotes (NaN and the
  infinities are not represented); a \<^verbatim>\<open>str\<close> is its UTF-8 byte sequence, on which the
  lexicographic order and the substring test agree with Python's on code points.
\<close>

datatype json =
    JNull
  | JBool bool
  | JInt int
  | JFloat rat
  | JStr string
  | JList "json list"
  | JDict "(string \<times> json) list"

text \<open>
  The exceptions that the script can meet. All of them are instances of Python's class
  \<^verbatim>\<open>Exception\<close>, the class that the handler of the registry scan names;
  \<^verbatim>\<open>Upstream\<close> stands for whatever the chain node, the contract registry or the
  trace helpers raise.
\<close>

datatype error =
    JSONDecodeError
  | AssertionError
  | KeyError string
  | TypeError
  | Upstream string

subsection \<open>The Python operators that the script applies to these values\<close>

text \<open>Numbers compare by value across \<^verbatim>\<open>bool\<close>, \<^verbatim>\<open>int\<close> and \<^verbatim>\<open>float\<close>.\<close>

fun py_num :: "json \<Rightarrow> rat option" where
  "py_num (JBool b) = Some (if b then 1 else 0)"
| "py_num (JInt i) = Some (of_int i)"
| "py_num (JFloat r) = Some r"
| "py_num JNull = None"
| "py_num (JStr s) = None"
| "py_num (JList xs) = None"
| "py_num (JDict m) = None"

text \<open>\<^verbatim>\<open>x == y\<close>: never raises; two dicts are equal when they have the same keys with
  equal values, in any order.\<close>

fun py_eq :: "json \<Rightarrow> json \<Rightarrow> bool"
  and py_eq_items :: "json list \<Rightarrow> json list \<Rightarrow> bool"
  and py_eq_entries :: "(string \<times> json) list \<Rightarrow> (string \<times> json) list \<Rightarrow> bool"
where
  "py_eq JNull y = (y = JNull)"
| "py_eq (JBool b) y = (case py_num y of None \<Rightarrow> False | Some n \<Rightarrow> (if b then 1 else 0) = n)"
| "py_eq (JInt i) y = (case py_num y of None \<Rightarrow> False | Some n \<Rightarrow> of_int i = n)"
| "py_eq (JFloat r) y = (case py_num y of None \<Rightarrow> False | Some n \<Rightarrow> r = n)"
| "py_eq (JStr s) y = (y = JStr s)"
| "py_eq (JList xs) y = (case y of JList ys \<Rightarrow> py_eq_items xs ys | _ \<Rightarrow> False)"
| "py_eq (JDict m) y =
     (case y of JDict n \<Rightarrow> length m = length n \<and> py_eq_entries m n | _ \<Rightarrow> False)"
| "py_eq_items [] ys = (ys = [])"
| "py_eq_items (x # xs) ys =
     (case ys of [] \<Rightarrow> False | y # ys' \<Rightarrow> py_eq x y \<and> py_eq_items xs ys')"
| "py_eq_entries [] n = True"
| "py_eq_entries (kv # m) n =
     (case map_of n (fst kv) of
        None \<Rightarrow> False
      | Some v \<Rightarrow> py_eq (snd kv) v \<and> py_eq_entries m n)"

text \<open>\<^verbatim>\<open>s > t\<close> on strings: lexicographic.\<close>

fun str_gt :: "string \<Rightarrow> string \<Rightarrow> bool" where
  "str_gt [] t = False"
| "str_gt (a # s) [] = True"
| "str_gt (a # s) (b # t) =
     (if a = b then str_gt s t else (of_char b :: nat) < of_char a)"

text \<open>
  \<^verbatim>\<open>x > y\<close>: numbers by value, strings and lists lexicographically (a list by the
  first pair of items that are not equal, else by length); every other pairing raises
  \<^verbatim>\<open>TypeError\<close>.
\<close>

fun py_gt :: "json \<Rightarrow> json \<Rightarrow> error + bool"
  and py_gt_items :: "json list \<Rightarrow> json list \<Rightarrow> error + bool"
where
  "py_gt JNull y = Inl TypeError"
| "py_gt (JBool b) y =
     (case py_num y of None \<Rightarrow> Inl TypeError | Some n \<Rightarrow> Inr (n < (if b then 1 else 0)))"
| "py_gt (JInt i) y =
     (case py_num y of None \<Rightarrow> Inl TypeError | Some n \<Rightarrow> Inr (n < of_int i))"
| "py_gt (JFloat r) y =
     (case py_num y of None \<Rightarrow> Inl TypeError | Some n \<Rightarrow> Inr (n < r))"
| "py_gt (JStr s) y = (case y of JStr t \<Rightarrow> Inr (str_gt s t) | _ \<Rightarrow> Inl TypeError)"
| "py_gt (JList xs) y = (case y of JList ys \<Rightarrow> py_gt_items xs ys | _ \<Rightarrow> Inl TypeError)"
| "py_gt (JDict m) y = Inl TypeError"
| "py_gt_items [] ys = Inr False"
| "py_gt_items (x # xs) ys =
     (case ys of
        [] \<Rightarrow> Inr True
      | y # ys' \<Rightarrow> if py_eq x y then py_gt_items xs ys' else py_gt x y)"

text \<open>\<^verbatim>\<open>k in s\<close> on strings: \<^verbatim>\<open>k\<close> occurs in \<^verbatim>\<open>s\<close> as a contiguous piece.\<close>

fun starts_with :: "string \<Rightarrow> string \<Rightarrow> bool" where
  "starts_with s [] = True"
| "starts_with [] (a # k) = False"
| "starts_with (b # s) (a # k) = (a = b \<and> starts_with s k)"

fun str_contains :: "string \<Rightarrow> string \<Rightarrow> bool" where
  "str_contains [] k = (k = [])"
| "str_contains (b # s) k = (starts_with (b # s) k \<or> str_contains s k)"

text \<open>
  \<^verbatim>\<open>k in x\<close> for a string \<^verbatim>\<open>k\<close>: a key of a dict, an item of a list, a piece of a
  string; \<^verbatim>\<open>TypeError\<close> on a value that is not a container.
\<close>

fun py_in :: "string \<Rightarrow> json \<Rightarrow> error + bool" where
  "py_in k (JDict m) = Inr (map_of m k \<noteq> None)"
| "py_in k (JList xs) = Inr (list_ex (\<lambda>x. py_eq x (JStr k)) xs)"
| "py_in k (JStr s) = Inr (str_contains s k)"
| "py_in k JNull = Inl TypeError"
| "py_in k (JBool b) = Inl TypeError"
| "py_in k (JInt i) = Inl TypeError"
| "py_in k (JFloat r) = Inl TypeError"

text \<open>\<^verbatim>\<open>x[k]\<close> for a string \<^verbatim>\<open>k\<close>: \<^verbatim>\<open>KeyError\<close> on a dict without the key,
  \<^verbatim>\<open>TypeError\<close> on everything that is not a dict.\<close>

fun py_getitem :: "json \<Rightarrow> string \<Rightarrow> error + json" where
  "py_getitem (JDict m) k = (case map_of m k of None \<Rightarrow> Inl (KeyError k) | Some v \<Rightarrow> Inr v)"
| "py_getitem JNull k = Inl TypeError"
| "py_getitem (JBool b) k = Inl TypeError"
| "py_getitem (JInt i) k = Inl TypeError"
| "py_getitem (JFloat r) k = Inl TypeError"
| "py_getitem (JStr s) k = Inl TypeError"
| "py_getitem (JList xs) k = Inl TypeError"

text \<open>\<^verbatim>\<open>x[k] = v\<close> for a string \<^verbatim>\<open>k\<close>: a dict rebinds the key where it stands, or
  appends it.\<close>

fun py_setitem :: "json \<Rightarrow> string \<Rightarrow> json \<Rightarrow> error + json" where
  "py_setitem (JDict m) k v = Inr (JDict (AList.update k v m))"
| "py_setitem JNull k v = Inl TypeError"
| "py_setitem (JBool b) k v = Inl TypeError"
| "py_setitem (JInt i) k v = Inl TypeError"
| "py_setitem (JFloat r) k v = Inl TypeError"
| "py_setitem (JStr s) k v = Inl TypeError"
| "py_setitem (JList xs) k v = Inl TypeError"

text \<open>The truth value that \<^verbatim>\<open>if x:\<close> tests.\<close>

fun py_bool :: "json \<Rightarrow> bool" where
  "py_bool JNull = False"
| "py_bool (JBool b) = b"
| "py_bool (JInt i) = (i \<noteq> 0)"
| "py_bool (JFloat r) = (r \<noteq> 0)"
| "py_bool (JStr s) = (s \<noteq> [])"
| "py_bool (JList xs) = (xs \<noteq> [])"
| "py_bool (JDict m) = (m \<noteq> [])"

text \<open>Sequencing of steps that may raise.\<close>

definition try_then :: "error + 'a \<Rightarrow> ('a \<Rightarrow> error + 'b) \<Rightarrow> error + 'b" where
  "try_then r f = (case r of Inl e \<Rightarrow> Inl e | Inr v \<Rightarrow> f v)"

section \<open>The world outside the script\<close>

text \<open>
  A file is represented by what \<^verbatim>\<open>json.load\<close> makes of its text: either the text
  is no JSON document (and is kept as it is), or it is the document of a value. Writing
  a value with \<^verbatim>\<open>json.dump\<close> leaves the document of that value. Opening and
  reading an existing file and writing a file are taken to succeed.
\<close>

datatype file_data = Garbled string | Document json

text \<open>
  What a run leaves behind, in order: the lines and objects sent to the console, and the
  files opened. Two further entries record calls, so that a run can be asked how often it
  did something: \<^verbatim>\<open>Computing a\<close> when the gas-table helper is called for the pool at
  address \<^verbatim>\<open>a\<close>, and \<^verbatim>\<open>Merging f a\<close> when the merge into file \<^verbatim>\<open>f\<close> is
  called for address \<^verbatim>\<open>a\<close>.
\<close>

datatype event =
    Print string
  | PrintJson json
  | PrintException error
  | OpenRead string
  | OpenWrite string
  | Computing string
  | Merging string string

record world =
  files :: "string \<rightharpoonup> file_data"
  trace :: "event list"

definition emit :: "event \<Rightarrow> world \<Rightarrow> world" where
  "emit e w = w\<lparr>trace := trace w @ [e]\<rparr>"

definition json_load :: "file_data \<Rightarrow> error + json" where
  "json_load d = (case d of Garbled s \<Rightarrow> Inl JSONDecodeError | Document v \<Rightarrow> Inr v)"

definition json_dump :: "json \<Rightarrow> string \<Rightarrow> world \<Rightarrow> world" where
  "json_dump v f w = w\<lparr>files := (files w)(f \<mapsto> Document v)\<rparr>"

section \<open>The merge into the cache file\<close>

definition STABLESWAP_GAS_TABLE_FILE :: string where
  "STABLESWAP_GAS_TABLE_FILE = ''stableswap_pools_gas_estimates.json''"

text \<open>
  Lines 50 to 56 of the script: the parsed content of the file, or the empty dict when
  there is no file or its text does not parse; the handler catches
  \<^verbatim>\<open>JSONDecodeError\<close> and nothing else.
\<close>

definition read_costs :: "string \<Rightarrow> world \<Rightarrow> (error + json) \<times> world" where
  "read_costs output_file_name w =
     (case files w output_file_name of
        None \<Rightarrow> (Inr (JDict []), w)
      | Some d \<Rightarrow>
          (let w' = emit (OpenRead output_file_name) w in
           case json_load d of
             Inr v \<Rightarrow> (Inr v, w')
           | Inl e \<Rightarrow> if e = JSONDecodeError then (Inr (JDict []), w') else (Inl e, w')))"

text \<open>
  Lines 61 to 66: \<^verbatim>\<open>None\<close> when nothing is to be written, the updated dict when the
  entry of \<^verbatim>\<open>pool_addr\<close> is rebound to the new table. The assertion is
  \<^verbatim>\<open>assert "count" in costs[pool_addr]\<close>, and assertions are on (Python is not run
  with \<^verbatim>\<open>-O\<close>). The operands of \<^verbatim>\<open>>\<close> are evaluated from left to right.
\<close>

definition updated_costs :: "json \<Rightarrow> string \<Rightarrow> json \<Rightarrow> error + json option" where
  "updated_costs costs pool_addr decoded_gas_table =
     try_then (py_in pool_addr costs) (\<lambda>present.
       if \<not> present then Inr None
       else
         try_then (py_getitem costs pool_addr) (\<lambda>entry.
         try_then (py_in ''count'' entry) (\<lambda>has_count.
           if \<not> has_count then Inl AssertionError
           else
             try_then (py_getitem decoded_gas_table ''count'') (\<lambda>new_count.
             try_then (py_getitem costs pool_addr) (\<lambda>stored.
             try_then (py_getitem stored ''count'') (\<lambda>stored_count.
             try_then (py_gt new_count stored_count) (\<lambda>greater.
               if \<not> greater then Inr None
               else
                 try_then (py_setitem costs pool_addr decoded_gas_table) (\<lambda>costs'.
                   Inr (Some costs')))))))))"

text \<open>
  \<^verbatim>\<open>__append_gas_table_to_output_file\<close>. An exception leaves the world as it was
  when it was raised; the file is written in the last step only. The new table is a value
  of type \<open>json\<close>, so \<^verbatim>\<open>json.dump\<close> can serialise it.
\<close>

definition append_gas_table_to_output_file ::
  "string \<Rightarrow> string \<Rightarrow> json \<Rightarrow> world \<Rightarrow> (error + unit) \<times> world" where
  "append_gas_table_to_output_file output_file_name pool_addr decoded_gas_table w =
     (let w1 = emit (Merging output_file_name pool_addr) w;
          w2 = emit (Print (''saving gas costs to file [green]'' @ output_file_name @ ''...'')) w1
      in case read_costs output_file_name w2 of
           (Inl e, w3) \<Rightarrow> (Inl e, w3)
         | (Inr costs, w3) \<Rightarrow>
             (case updated_costs costs pool_addr decoded_gas_table of
                Inl e \<Rightarrow> (Inl e, w3)
              | Inr None \<Rightarrow> (Inr (), w3)
              | Inr (Some costs') \<Rightarrow>
                  (Inr (), json_dump costs' output_file_name (emit (OpenWrite output_file_name) w3))))"

text \<open>Merges one after the other, each a call of its own, whatever the one before did.\<close>

fun merges :: "string \<Rightarrow> (string \<times> json) list \<Rightarrow> world \<Rightarrow> world" where
  "merges f [] w = w"
| "merges f (job # rest) w =
     merges f rest (snd (append_gas_table_to_output_file f (fst job) (snd job) w))"

section \<open>The commands\<close>

text \<open>
  The chain node, the contract registry and the helpers of the other modules
  (\<^verbatim>\<open>scripts.stableswap_pool_gas_calculator\<close>, \<^verbatim>\<open>scripts.get_calltrace_from_tx\<close>,
  \<^verbatim>\<open>scripts.call_tree_parser\<close>) are parameters of a run. Each answers or raises; none
  of them is given the cache file. \<^verbatim>\<open>slot\<close> is the position of a string in the hash
  table of a Python set, which fixes the order in which the set is iterated; it ranges
  over all functions, so every order is covered.
\<close>

record contract =
  address :: string
  shown :: string

record 't chain =
  Contract :: "string \<Rightarrow> error + contract"
  pool_count :: "contract \<Rightarrow> error + nat"
  pool_list :: "contract \<Rightarrow> nat \<Rightarrow> error + string"
  get_gas_table_for_stableswap_pool :: "contract \<Rightarrow> int \<Rightarrow> error + json"
  get_gas_table_for_stableswap_pool_in_block_range :: "contract \<Rightarrow> int \<Rightarrow> int \<Rightarrow> error + json"
  get_calltree :: "string \<Rightarrow> error + 't"
  parse_as_tree :: "'t \<Rightarrow> string list \<Rightarrow> error + string"
  get_avg_gas_cost_per_method_for_tx :: "contract \<Rightarrow> 't \<Rightarrow> error + json"
  slot :: "string \<Rightarrow> nat"

definition MAIN_REGISTRY :: string where
  "MAIN_REGISTRY = ''0x90E00ACe148ca3b23Ac1bC8C240C2a7Dd9c2d7f5''"

definition STABLESWAP_FACTORY :: string where
  "STABLESWAP_FACTORY = ''0xB9fC157394Af804a3578134A6585C0dc9cc990d4''"

subsection \<open>Collecting the pools\<close>

text \<open>The loop of \<^verbatim>\<open>__get_pools\<close> over \<^verbatim>\<open>range(pool_count)\<close>.\<close>

fun get_pools_loop :: "(nat \<Rightarrow> error + string) \<Rightarrow> nat list \<Rightarrow> string list \<Rightarrow> error + string list" where
  "get_pools_loop pl [] pools = Inr pools"
| "get_pools_loop pl (i # rest) pools =
     (case pl i of
        Inl e \<Rightarrow> Inl e
      | Inr pool \<Rightarrow> get_pools_loop pl rest (if pool \<notin> set pools then pools @ [pool] else pools))"

definition get_pools :: "'t chain \<Rightarrow> string \<Rightarrow> error + string list" where
  "get_pools ch registry =
     try_then (Contract ch registry) (\<lambda>reg.
     try_then (pool_count ch reg) (\<lambda>n.
       get_pools_loop (pool_list ch reg) [0..<n] []))"

text \<open>\<^verbatim>\<open>for registry in [...]: pools.extend(__get_pools(registry))\<close>\<close>

fun extend_pools :: "'t chain \<Rightarrow> string list \<Rightarrow> string list \<Rightarrow> error + string list" where
  "extend_pools ch [] pools = Inr pools"
| "extend_pools ch (registry # rest) pools =
     (case get_pools ch registry of
        Inl e \<Rightarrow> Inl e
      | Inr found \<Rightarrow> extend_pools ch rest (pools @ found))"

text \<open>\<^verbatim>\<open>list(set(pools))\<close>: the distinct items, in the order of their slots.\<close>

definition list_of_set :: "(string \<Rightarrow> nat) \<Rightarrow> string list \<Rightarrow> string list" where
  "list_of_set sl xs = sort_key sl (remdups xs)"

text \<open>Decimal digits of a number, as \<^verbatim>\<open>len(pools)\<close> is printed.\<close>

fun str_nat :: "nat \<Rightarrow> string" where
  "str_nat n =
     (if n < 10 then [char_of (48 + n)] else str_nat (n div 10) @ [char_of (48 + n mod 10)])"

declare str_nat.simps [simp del]

subsection \<open>The scan of all pools of the registries\<close>

text \<open>
  The body of the loop over the pools (lines 111 to 128): the contract object is made
  outside the \<^verbatim>\<open>try\<close>, the gas table is computed and merged inside it, and the
  handler reports the exception and lets the loop go on.
\<close>

definition scan_attempt :: "'t chain \<Rightarrow> int \<Rightarrow> string \<Rightarrow> contract \<Rightarrow> world \<Rightarrow> (error + unit) \<times> world" where
  "scan_attempt ch min_transactions pool_addr pool w =
     (let w1 = emit (Computing pool_addr) w in
      case get_gas_table_for_stableswap_pool ch pool min_transactions of
        Inl e \<Rightarrow> (Inl e, w1)
      | Inr decoded_gas_table \<Rightarrow>
          if py_bool decoded_gas_table
          then append_gas_table_to_output_file STABLESWAP_GAS_TABLE_FILE pool_addr decoded_gas_table w1
          else (Inr (), w1))"

text \<open>The handler (lines 124 to 128).\<close>

definition report_and_move_on :: "string \<Rightarrow> error \<Rightarrow> world \<Rightarrow> world" where
  "report_and_move_on pool_addr e w =
     emit (Print (''Error getting gas costs for [red]'' @ pool_addr @ ''. Moving on ...''))
       (emit (PrintException e) w)"

definition scan_pool :: "'t chain \<Rightarrow> int \<Rightarrow> string \<Rightarrow> world \<Rightarrow> (error + unit) \<times> world" where
  "scan_pool ch min_transactions pool_addr w =
     (case Contract ch pool_addr of
        Inl e \<Rightarrow> (Inl e, w)
      | Inr pool \<Rightarrow>
          (case scan_attempt ch min_transactions pool_addr pool w of
             (Inr u, w') \<Rightarrow> (Inr (), w')
           | (Inl e, w') \<Rightarrow> (Inr (), report_and_move_on pool_addr e w')))"

fun scan_pools :: "'t chain \<Rightarrow> int \<Rightarrow> string list \<Rightarrow> world \<Rightarrow> (error + unit) \<times> world" where
  "scan_pools ch min_transactions [] w = (Inr (), w)"
| "scan_pools ch min_transactions (pool_addr # rest) w =
     (case scan_pool ch min_transactions pool_addr w of
        (Inl e, w') \<Rightarrow> (Inl e, w')
      | (Inr u, w') \<Rightarrow> scan_pools ch min_transactions rest w')"

text \<open>The pool list of the scan (lines 103 to 106).\<close>

definition registry_pools :: "'t chain \<Rightarrow> error + string list" where
  "registry_pools ch =
     try_then (extend_pools ch [MAIN_REGISTRY, STABLESWAP_FACTORY] []) (\<lambda>pools.
       Inr (list_of_set (slot ch) pools))"

definition get_gas_costs_for_stableswap_registry_pools ::
  "'t chain \<Rightarrow> int \<Rightarrow> world \<Rightarrow> (error + unit) \<times> world" where
  "get_gas_costs_for_stableswap_registry_pools ch min_transactions w =
     (let w1 = emit (Print ''Getting all stableswap pools ...'') w in
      case registry_pools ch of
        Inl e \<Rightarrow> (Inl e, w1)
      | Inr pools \<Rightarrow>
          scan_pools ch min_transactions pools
            (emit (Print (''... found [red]'' @ str_nat (length pools) @ '' pools.'')) w1))"

subsection \<open>One pool over a block range\<close>

definition get_gas_costs_for_stableswap_pool ::
  "'t chain \<Rightarrow> string \<Rightarrow> int \<Rightarrow> int \<Rightarrow> world \<Rightarrow> (error + unit) \<times> world" where
  "get_gas_costs_for_stableswap_pool ch pool_arg start_block end_block w =
     (case Contract ch pool_arg of
        Inl e \<Rightarrow> (Inl e, w)
      | Inr pool \<Rightarrow>
          (let w1 = emit (Computing (address pool)) w in
           case get_gas_table_for_stableswap_pool_in_block_range ch pool start_block end_block of
             Inl e \<Rightarrow> (Inl e, w1)
           | Inr decoded_gas_table \<Rightarrow>
               if py_bool decoded_gas_table
               then
                 (case append_gas_table_to_output_file STABLESWAP_GAS_TABLE_FILE
                         (address pool) decoded_gas_table w1 of
                    (Inl e, w2) \<Rightarrow> (Inl e, w2)
                  | (Inr u, w2) \<Rightarrow> (Inr (), emit (PrintJson decoded_gas_table) w2))
               else (Inr (), w1)))"

subsection \<open>One transaction\<close>

definition get_gas_costs_tx ::
  "'t chain \<Rightarrow> string \<Rightarrow> string \<Rightarrow> world \<Rightarrow> (error + unit) \<times> world" where
  "get_gas_costs_tx ch contractaddr tx w =
     (case Contract ch contractaddr of
        Inl e \<Rightarrow> (Inl e, w)
      | Inr contract \<Rightarrow>
          (case get_calltree ch tx of
             Inl e \<Rightarrow> (Inl e, w)
           | Inr call_tree \<Rightarrow>
               (case parse_as_tree ch call_tree [address contract] of
                  Inl e \<Rightarrow> (Inl e, w)
                | Inr rich_call_tree \<Rightarrow>
                    (let w1 = emit (Print (''Call trace for [bold blue]'' @ [CHR 39] @ tx @ [CHR 39] @ ''[/]'')) w;
                         w2 = emit (Print rich_call_tree) w1;
                         w3 = emit (Print ([CHR 10] @ ''Gas consumed per method for [red]''
                                 @ [CHR 39] @ shown contract @ [CHR 39] @ '':'')) w2
                     in case get_avg_gas_cost_per_method_for_tx ch contract call_tree of
                          Inl e \<Rightarrow> (Inl e, w3)
                        | Inr gas_cost \<Rightarrow> (Inr (), emit (PrintJson gas_cost) w3)))))"

section \<open>Observations on a run\<close>

text \<open>The events that a run from \<open>w\<close> to \<open>w'\<close> added.\<close>

definition events_since :: "world \<Rightarrow> world \<Rightarrow> event list" where
  "events_since w w' = drop (length (trace w)) (trace w')"

text \<open>The run opened the file for writing.\<close>

definition wrote :: "world \<Rightarrow> world \<Rightarrow> string \<Rightarrow> bool" where
  "wrote w w' f = (OpenWrite f \<in> set (events_since w w'))"

text \<open>The event is the opening of a file.\<close>

definition is_file_access :: "event \<Rightarrow> bool" where
  "is_file_access ev = (case ev of OpenRead f \<Rightarrow> True | OpenWrite f \<Rightarrow> True | _ \<Rightarrow> False)"

text \<open>The entry that the file holds for an address, when the file is the document of a
  dict.\<close>

definition stored :: "world \<Rightarrow> string \<Rightarrow> string \<Rightarrow> json option" where
  "stored w f a =
     (case files w f of
        Some (Document (JDict m)) \<Rightarrow> map_of m a
      | _ \<Rightarrow> None)"

text \<open>The value that lines 50 to 56 bind to \<^verbatim>\<open>costs\<close>.\<close>

definition parsed_costs :: "world \<Rightarrow> string \<Rightarrow> json" where
  "parsed_costs w f =
     (case files w f of
        None \<Rightarrow> JDict []
      | Some (Garbled s) \<Rightarrow> JDict []
      | Some (Document v) \<Rightarrow> v)"

text \<open>The events of a merge before it decides.\<close>

definition merge_prefix :: "string \<Rightarrow> string \<Rightarrow> world \<Rightarrow> event list" where
  "merge_prefix f a w =
     [Merging f a, Print (''saving gas costs to file [green]'' @ f @ ''...'')]
     @ (if files w f = None then [] else [OpenRead f])"

subsection \<open>Sample inputs\<close>

text \<open>A gas table with one method, backed by \<open>n\<close> transactions.\<close>

definition sample_table :: "int \<Rightarrow> json" where
  "sample_table n =
     JDict [(''count'', JInt n),
            (''exchange'', JDict [(''avg_gas'', JInt 120000), (''count'', JInt n)])]"

text \<open>A cache file with entries for two pools, no cache file, and a cache file whose
  text is no JSON.\<close>

definition sample_cache :: world where
  "sample_cache =
     \<lparr>files = [STABLESWAP_GAS_TABLE_FILE \<mapsto>
                 Document (JDict [(''0xA'', sample_table 500), (''0xB'', sample_table 7)])],
      trace = []\<rparr>"

definition no_cache :: world where
  "no_cache = \<lparr>files = Map.empty, trace = []\<rparr>"

definition garbled_cache :: world where
  "garbled_cache = \<lparr>files = [STABLESWAP_GAS_TABLE_FILE \<mapsto> Garbled ''{not json''], trace = []\<rparr>"

text \<open>
  A chain with two registries of three pools each, which share pools. The helper times out
  on pool \<^verbatim>\<open>0xA\<close>, returns a table without \<^verbatim>\<open>count\<close> for \<^verbatim>\<open>0xB\<close>, an empty
  table for \<^verbatim>\<open>0xC\<close>, and a table backed by nine transactions for every other pool.
\<close>

definition table_without_count :: json where
  "table_without_count = JDict [(''exchange'', JDict [(''avg_gas'', JInt 120000)])]"

definition sample_helper :: "contract \<Rightarrow> error + json" where
  "sample_helper pool =
     (if address pool = ''0xA'' then Inl (Upstream ''timeout'')
      else if address pool = ''0xB'' then Inr table_without_count
      else if address pool = ''0xC'' then Inr (JDict [])
      else Inr (sample_table 9))"

definition sample_chain :: "unit chain" where
  "sample_chain =
     \<lparr>Contract = (\<lambda>a. Inr \<lparr>address = a, shown = a\<rparr>),
      pool_count = (\<lambda>reg. Inr 3),
      pool_list = (\<lambda>reg i.
        if address reg = MAIN_REGISTRY
        then Inr (if i = 0 then ''0xA'' else if i = 1 then ''0xB'' else ''0xA'')
        else Inr (if i = 0 then ''0xB'' else if i = 1 then ''0xC'' else ''0xD'')),
      get_gas_table_for_stableswap_pool = (\<lambda>pool min_transactions. sample_helper pool),
      get_gas_table_for_stableswap_pool_in_block_range = (\<lambda>pool start_block end_block. sample_helper pool),
      get_calltree = (\<lambda>tx. Inr ()),
      parse_as_tree = (\<lambda>call_tree addresses. Inr ''exchange [120000 gas]''),
      get_avg_gas_cost_per_method_for_tx = (\<lambda>contract call_tree. Inr (JDict [(''exchange'', JInt 120000)])),
      slot = (\<lambda>a. case rev a of [] \<Rightarrow> 0 | c # rest \<Rightarrow> 255 - of_char c)\<rparr>"

section \<open>Facts about the operators\<close>

lemma try_then_Inr_iff:
  "try_then r f = Inr y \<longleftrightarrow> (\<exists>v. r = Inr v \<and> f v = Inr y)"
  by (cases r) (simp_all add: try_then_def)

lemma py_getitem_Inr_iff:
  "py_getitem x k = Inr v \<longleftrightarrow> (\<exists>m. x = JDict m \<and> map_of m k = Some v)"
  by (cases x) (auto split: option.splits)

lemma py_setitem_Inr_iff:
  "py_setitem x k v = Inr y \<longleftrightarrow> (\<exists>m. x = JDict m \<and> y = JDict (AList.update k v m))"
  by (cases x) auto

lemma str_gt_irrefl: "\<not> str_gt s s"
  by (induction s) auto

lemma py_gt_irrefl_aux:
  "(y = x \<longrightarrow> py_gt x y \<noteq> Inr True)"
  "(ys = xs \<longrightarrow> py_gt_items xs ys \<noteq> Inr True)"
  by (induction x y and xs ys rule: py_gt_py_gt_items.induct)
     (auto simp: str_gt_irrefl split: option.splits json.splits list.splits if_splits)

lemma py_gt_irrefl: "py_gt x x \<noteq> Inr True"
  using py_gt_irrefl_aux(1) [of x x] by simp

lemma py_gt_numeric:
  "py_gt x y = Inr True \<Longrightarrow> py_num y = Some n \<Longrightarrow> \<exists>k. py_num x = Some k \<and> n < k"
  by (cases x; cases y) (auto split: if_splits)

section \<open>Facts about the merge\<close>

text \<open>The merge rebinds an entry exactly when the address has one, both tables have a
  \<^verbatim>\<open>count\<close>, and the new count is greater.\<close>

lemma updated_costs_Some_iff:
  "updated_costs costs a t = Inr (Some costs') \<longleftrightarrow>
     (\<exists>m entry c c'. costs = JDict m \<and> map_of m a = Some entry
        \<and> py_getitem entry ''count'' = Inr c \<and> py_getitem t ''count'' = Inr c'
        \<and> py_gt c' c = Inr True \<and> costs' = JDict (AList.update a t m))"
  (is "?L \<longleftrightarrow> ?R")
proof
  assume ?L
  then show ?R
    unfolding updated_costs_def
    by (auto simp: try_then_Inr_iff py_getitem_Inr_iff py_setitem_Inr_iff split: if_splits)
next
  assume ?R
  then show ?L
    unfolding updated_costs_def
    by (auto simp: try_then_def py_getitem_Inr_iff)
qed

lemma parsed_costs_trace [simp]: "parsed_costs (w\<lparr>trace := evs\<rparr>) f = parsed_costs w f"
  by (simp add: parsed_costs_def)

lemma read_costs_eq:
  "read_costs f w =
     (Inr (parsed_costs w f), if files w f = None then w else emit (OpenRead f) w)"
  by (auto simp: read_costs_def parsed_costs_def json_load_def Let_def
           split: option.splits file_data.splits)

lemma append_result:
  "append_gas_table_to_output_file f a t w =
     (case updated_costs (parsed_costs w f) a t of
        Inl e \<Rightarrow> (Inl e, w\<lparr>trace := trace w @ merge_prefix f a w\<rparr>)
      | Inr None \<Rightarrow> (Inr (), w\<lparr>trace := trace w @ merge_prefix f a w\<rparr>)
      | Inr (Some costs') \<Rightarrow>
          (Inr (), \<lparr>files = (files w)(f \<mapsto> Document costs'),
                    trace = trace w @ merge_prefix f a w @ [OpenWrite f]\<rparr>))"
  by (auto simp: append_gas_table_to_output_file_def read_costs_eq emit_def json_dump_def
        merge_prefix_def Let_def split: sum.splits option.splits)

lemma append_files:
  "files (snd (append_gas_table_to_output_file f a t w)) =
     (case updated_costs (parsed_costs w f) a t of
        Inr (Some costs') \<Rightarrow> (files w)(f \<mapsto> Document costs')
      | _ \<Rightarrow> files w)"
  by (simp add: append_result split: sum.splits option.splits)

lemma append_trace:
  "trace (snd (append_gas_table_to_output_file f a t w)) =
     trace w @ merge_prefix f a w @
       (case updated_costs (parsed_costs w f) a t of
          Inr (Some costs') \<Rightarrow> [OpenWrite f]
        | _ \<Rightarrow> [])"
  by (simp add: append_result split: sum.splits option.splits)

lemma events_since_append:
  "events_since w (snd (append_gas_table_to_output_file f a t w)) =
     merge_prefix f a w @
       (case updated_costs (parsed_costs w f) a t of
          Inr (Some costs') \<Rightarrow> [OpenWrite f]
        | _ \<Rightarrow> [])"
  by (simp add: events_since_def append_trace)

lemma wrote_append_iff:
  "wrote w (snd (append_gas_table_to_output_file f a t w)) f \<longleftrightarrow>
     (\<exists>costs'. updated_costs (parsed_costs w f) a t = Inr (Some costs'))"
proof (cases "updated_costs (parsed_costs w f) a t")
  case (Inl e)
  then show ?thesis by (simp add: wrote_def events_since_append merge_prefix_def)
next
  case (Inr r)
  then show ?thesis by (cases r) (simp_all add: wrote_def events_since_append merge_prefix_def)
qed

text \<open>A table that has just replaced the entry does not replace it again.\<close>

lemma updated_costs_again:
  assumes "updated_costs costs a t = Inr (Some costs')"
  shows "updated_costs costs' a t \<noteq> Inr (Some costs'')"
proof
  assume again: "updated_costs costs' a t = Inr (Some costs'')"
  from assms obtain m where c': "costs' = JDict (AList.update a t m)"
    by (auto simp: updated_costs_Some_iff)
  from again c' obtain c d where "py_getitem t ''count'' = Inr c" "py_getitem t ''count'' = Inr d"
    "py_gt d c = Inr True"
    by (auto simp: updated_costs_Some_iff update_conv')
  then show False using py_gt_irrefl by auto
qed

lemma stored_iff:
  "stored w f a = Some entry \<longleftrightarrow> (\<exists>m. parsed_costs w f = JDict m \<and> map_of m a = Some entry)"
  by (auto simp: stored_def parsed_costs_def split: option.splits file_data.splits json.splits)

lemma stored_None_iff:
  "stored w f a = None \<longleftrightarrow> (\<forall>m. parsed_costs w f = JDict m \<longrightarrow> map_of m a = None)"
  by (auto simp: stored_def parsed_costs_def split: option.splits file_data.splits json.splits)

lemma stored_entry_unique:
  assumes "stored w f a = Some entry" "parsed_costs w f = JDict m" "map_of m a = Some e"
  shows "e = entry"
  using assms by (simp add: stored_iff)

lemma stored_files_cong: "files w' = files w \<Longrightarrow> stored w' f a = stored w f a"
  by (simp add: stored_def)

lemma append_not_replaced:
  assumes "\<And>costs'. updated_costs (parsed_costs w f) a t \<noteq> Inr (Some costs')"
  shows "files (snd (append_gas_table_to_output_file f a t w)) = files w"
  using assms by (auto simp: append_files split: sum.splits option.splits)

lemma append_replaced:
  assumes "updated_costs (parsed_costs w f) a t = Inr (Some costs')"
  shows "\<exists>m. files w f = Some (Document (JDict m))
           \<and> map_of m a \<noteq> None
           \<and> costs' = JDict (AList.update a t m)
           \<and> files (snd (append_gas_table_to_output_file f a t w))
               = (files w)(f \<mapsto> Document (JDict (AList.update a t m)))"
proof -
  from assms obtain m entry where m: "parsed_costs w f = JDict m" "map_of m a = Some entry"
    "costs' = JDict (AList.update a t m)"
    by (auto simp: updated_costs_Some_iff)
  from m(1,2) have "files w f = Some (Document (JDict m))"
    by (auto simp: parsed_costs_def split: option.splits file_data.splits)
  with m assms show ?thesis by (simp add: append_files)
qed

lemma stored_after_replace:
  assumes "files w f = Some (Document (JDict m))"
    and "files w' = (files w)(f \<mapsto> Document (JDict (AList.update a t m)))"
  shows "stored w' f b = (if b = a then Some t else stored w f b)"
  using assms by (simp add: stored_def update_conv')

text \<open>The entries of the other addresses stay.\<close>

lemma append_frame:
  assumes "b \<noteq> a"
  shows "stored (snd (append_gas_table_to_output_file f a t w)) f b = stored w f b"
proof (cases "\<exists>costs'. updated_costs (parsed_costs w f) a t = Inr (Some costs')")
  case True
  then obtain costs' where "updated_costs (parsed_costs w f) a t = Inr (Some costs')" by blast
  from append_replaced [OF this] obtain m where
    "files w f = Some (Document (JDict m))"
    "files (snd (append_gas_table_to_output_file f a t w))
               = (files w)(f \<mapsto> Document (JDict (AList.update a t m)))"
    by blast
  from stored_after_replace [OF this] assms show ?thesis by simp
next
  case False
  then have "files (snd (append_gas_table_to_output_file f a t w)) = files w"
    by (intro append_not_replaced) blast
  then show ?thesis by (rule stored_files_cong)
qed

text \<open>One merge, at any address, does not lower a stored numeric count.\<close>

lemma append_count_step:
  assumes "stored w f a = Some entry" "py_getitem entry ''count'' = Inr c" "py_num c = Some n"
  shows "\<exists>entry' c' n'. stored (snd (append_gas_table_to_output_file f b t w)) f a = Some entry'
           \<and> py_getitem entry' ''count'' = Inr c' \<and> py_num c' = Some n' \<and> n \<le> n'"
proof (cases "b = a")
  case False
  then have "stored (snd (append_gas_table_to_output_file f b t w)) f a = stored w f a"
    using append_frame [of a b] by simp
  with assms show ?thesis by auto
next
  case True
  show ?thesis
  proof (cases "\<exists>costs'. updated_costs (parsed_costs w f) b t = Inr (Some costs')")
    case False
    then have "files (snd (append_gas_table_to_output_file f b t w)) = files w"
      by (intro append_not_replaced) blast
    then have "stored (snd (append_gas_table_to_output_file f b t w)) f a = stored w f a"
      by (rule stored_files_cong)
    with assms show ?thesis by auto
  next
    case yes: True
    then obtain costs' where u: "updated_costs (parsed_costs w f) b t = Inr (Some costs')" by blast
    from u obtain m e d d' where m: "parsed_costs w f = JDict m" "map_of m b = Some e"
      "py_getitem e ''count'' = Inr d" "py_getitem t ''count'' = Inr d'" "py_gt d' d = Inr True"
      unfolding updated_costs_Some_iff by blast
    from assms(1) m(1,2) True have "e = entry" using stored_entry_unique by blast
    with m(3) assms(2) have "d = c" by simp
    with m(5) assms(3) obtain k where k: "py_num d' = Some k" "n < k"
      using py_gt_numeric by blast
    from append_replaced [OF u] obtain m' where
      "files w f = Some (Document (JDict m'))"
      "files (snd (append_gas_table_to_output_file f b t w))
               = (files w)(f \<mapsto> Document (JDict (AList.update b t m')))"
      by blast
    from stored_after_replace [OF this] True
    have "stored (snd (append_gas_table_to_output_file f b t w)) f a = Some t"
      by simp
    with m(4) k show ?thesis by auto
  qed
qed

lemma merges_count_mono:
  assumes "stored w f a = Some entry" "py_getitem entry ''count'' = Inr c" "py_num c = Some n"
  shows "\<exists>entry' c' n'. stored (merges f jobs w) f a = Some entry'
           \<and> py_getitem entry' ''count'' = Inr c' \<and> py_num c' = Some n' \<and> n \<le> n'"
  using assms
proof (induction jobs arbitrary: w entry c n)
  case Nil
  then show ?case by auto
next
  case (Cons job jobs)
  from append_count_step [OF Cons.prems, of "fst job" "snd job"]
  obtain e1 c1 n1 where s1:
    "stored (snd (append_gas_table_to_output_file f (fst job) (snd job) w)) f a = Some e1"
    "py_getitem e1 ''count'' = Inr c1" "py_num c1 = Some n1" "n \<le> n1"
    by blast
  from Cons.IH [OF s1(1,2,3)] obtain e2 c2 n2 where s2:
    "stored (merges f jobs (snd (append_gas_table_to_output_file f (fst job) (snd job) w))) f a = Some e2"
    "py_getitem e2 ''count'' = Inr c2" "py_num c2 = Some n2" "n1 \<le> n2"
    by blast
  from s1(4) s2(4) have "n \<le> n2" by simp
  with s2(1,2,3) show ?case by simp
qed

text \<open>A table whose count is not greater leaves the entry as it is.\<close>

lemma append_keeps_on_lesser_count:
  assumes "stored w f a = Some entry" "py_getitem entry ''count'' = Inr c" "py_num c = Some n"
    and "py_getitem t ''count'' = Inr d" "py_num d = Some k" "k \<le> n"
  shows "stored (snd (append_gas_table_to_output_file f b t w)) f a = Some entry"
proof (cases "b = a")
  case False
  then show ?thesis using append_frame [of a b] assms(1) by simp
next
  case True
  have "updated_costs (parsed_costs w f) b t \<noteq> Inr (Some costs')" for costs'
  proof
    assume "updated_costs (parsed_costs w f) b t = Inr (Some costs')"
    then obtain m e c0 d0 where m: "parsed_costs w f = JDict m" "map_of m b = Some e"
      "py_getitem e ''count'' = Inr c0" "py_getitem t ''count'' = Inr d0" "py_gt d0 c0 = Inr True"
      unfolding updated_costs_Some_iff by blast
    from assms(1) m(1,2) True have "e = entry" using stored_entry_unique by blast
    with m(3) assms(2) have "c0 = c" by simp
    moreover from m(4) assms(4) have "d0 = d" by simp
    ultimately have "py_gt d c = Inr True" using m(5) by simp
    from py_gt_numeric [OF this assms(3)] obtain k' where "py_num d = Some k'" "n < k'" by blast
    with assms(5) have "n < k" by simp
    with assms(6) show False by simp
  qed
  then have "files (snd (append_gas_table_to_output_file f b t w)) = files w"
    by (rule append_not_replaced)
  then have "stored (snd (append_gas_table_to_output_file f b t w)) f a = stored w f a"
    by (rule stored_files_cong)
  with assms(1) show ?thesis by simp
qed

subsection \<open>The sample inputs, evaluated\<close>

lemma sample_table_count [simp]: "py_getitem (sample_table n) ''count'' = Inr (JInt n)"
  by (simp add: sample_table_def)

lemma stored_sample_cache:
  "stored sample_cache STABLESWAP_GAS_TABLE_FILE ''0xA'' = Some (sample_table 500)"
  "stored sample_cache STABLESWAP_GAS_TABLE_FILE ''0xB'' = Some (sample_table 7)"
  "stored sample_cache STABLESWAP_GAS_TABLE_FILE ''0xC'' = None"
  by (simp_all add: stored_def sample_cache_def)

lemma sample_merge_501:
  "files (snd (append_gas_table_to_output_file STABLESWAP_GAS_TABLE_FILE ''0xA''
                 (sample_table 501) sample_cache))
     = [STABLESWAP_GAS_TABLE_FILE \<mapsto>
          Document (JDict [(''0xA'', sample_table 501), (''0xB'', sample_table 7)])]"
  by (simp add: append_files parsed_costs_def sample_cache_def updated_costs_def try_then_def
        sample_table_def)

section \<open>The claims about the merge\<close>

text \<open>
  C1. The claim: the stored entry of an address is replaced by the new table iff there is
  no entry yet for the address, or the new count is strictly greater than the stored one.
  The script does the second and not the first: the write of line 67 stands under
  \<^verbatim>\<open>if pool_addr in costs\<close>, so a table for an address without an entry is dropped.
  Run on the first table ever (no cache file, count 1) the merge returns normally and
  leaves no file; run for a new address \<^verbatim>\<open>0xC\<close> on a cache with other entries it leaves
  no entry for \<^verbatim>\<open>0xC\<close>.
\<close>

theorem first_merge_leaves_no_entry:
  "append_gas_table_to_output_file STABLESWAP_GAS_TABLE_FILE ''0xA'' (sample_table 1) no_cache
     = (Inr (),
        \<lparr>files = Map.empty,
         trace = [Merging STABLESWAP_GAS_TABLE_FILE ''0xA'',
                  Print ''saving gas costs to file [green]stableswap_pools_gas_estimates.json...'']\<rparr>)
   \<and> stored (snd (append_gas_table_to_output_file STABLESWAP_GAS_TABLE_FILE ''0xC''
                     (sample_table 1) sample_cache)) STABLESWAP_GAS_TABLE_FILE ''0xC'' = None"
  by (simp add: append_result parsed_costs_def updated_costs_def try_then_def merge_prefix_def
        STABLESWAP_GAS_TABLE_FILE_def no_cache_def sample_cache_def stored_def)

text \<open>
  C2. The claim: a cache file that does not parse is treated as holding no entries, the
  merge does not raise, and merging a table for address \<^verbatim>\<open>A\<close> into it leaves a file that
  holds only the entry of \<^verbatim>\<open>A\<close>. The script does not raise, and with no entries it
  writes nothing, for the reason given at C1: the file keeps its unparsable text.
\<close>

theorem garbled_cache_stays_garbled:
  "append_gas_table_to_output_file STABLESWAP_GAS_TABLE_FILE ''0xA'' (sample_table 1) garbled_cache
     = (Inr (),
        \<lparr>files = [STABLESWAP_GAS_TABLE_FILE \<mapsto> Garbled ''{not json''],
         trace = [Merging STABLESWAP_GAS_TABLE_FILE ''0xA'',
                  Print ''saving gas costs to file [green]stableswap_pools_gas_estimates.json...'',
                  OpenRead STABLESWAP_GAS_TABLE_FILE]\<rparr>)"
  by (simp add: append_result parsed_costs_def updated_costs_def try_then_def merge_prefix_def
        STABLESWAP_GAS_TABLE_FILE_def garbled_cache_def)

text \<open>
  C3. For an address that has an entry with a numeric \<^verbatim>\<open>count\<close> \<open>n\<close>: after any
  sequence of merges, at any addresses and with any tables, the address still has an
  entry, and its count is a number that is at least \<open>n\<close>; and a single merge of a table
  whose count is less than or equal to \<open>n\<close> leaves the entry as it is.
\<close>

theorem stored_count_never_decreases:
  assumes "stored w f a = Some entry"
    and "py_getitem entry ''count'' = Inr c"
    and "py_num c = Some n"
  shows "(\<exists>entry' c' n'. stored (merges f jobs w) f a = Some entry'
            \<and> py_getitem entry' ''count'' = Inr c' \<and> py_num c' = Some n' \<and> n \<le> n')
       \<and> (\<forall>b t d k. py_getitem t ''count'' = Inr d \<and> py_num d = Some k \<and> k \<le> n
             \<longrightarrow> stored (snd (append_gas_table_to_output_file f b t w)) f a = Some entry)"
  using merges_count_mono [OF assms] append_keeps_on_lesser_count [OF assms] by blast

theorem stored_count_never_decreases_witness:
  "stored sample_cache STABLESWAP_GAS_TABLE_FILE ''0xA'' = Some (sample_table 500)
   \<and> py_getitem (sample_table 500) ''count'' = Inr (JInt 500)
   \<and> py_num (JInt 500) = Some 500
   \<and> (\<exists>entry' c' n'.
        stored (merges STABLESWAP_GAS_TABLE_FILE
                  [(''0xA'', sample_table 499), (''0xA'', sample_table 501), (''0xB'', sample_table 9)]
                  sample_cache) STABLESWAP_GAS_TABLE_FILE ''0xA'' = Some entry'
        \<and> py_getitem entry' ''count'' = Inr c' \<and> py_num c' = Some n' \<and> 500 \<le> n')
   \<and> stored (snd (append_gas_table_to_output_file STABLESWAP_GAS_TABLE_FILE ''0xA''
                    (sample_table 500) sample_cache)) STABLESWAP_GAS_TABLE_FILE ''0xA''
        = Some (sample_table 500)"
proof -
  have h1: "stored sample_cache STABLESWAP_GAS_TABLE_FILE ''0xA'' = Some (sample_table 500)"
    by (simp add: stored_def sample_cache_def)
  have h2: "py_getitem (sample_table 500) ''count'' = Inr (JInt 500)"
    by (simp add: sample_table_def)
  have h3: "py_num (JInt 500) = Some 500" by simp
  have h4: "py_getitem (sample_table 500) ''count'' = Inr (JInt 500) \<and> py_num (JInt 500) = Some 500
              \<and> (500::rat) \<le> 500"
    using h2 by simp
  note inst = stored_count_never_decreases [OF h1 h2 h3]
  from inst [of "[(''0xA'', sample_table 499), (''0xA'', sample_table 501), (''0xB'', sample_table 9)]"]
       h1 h2 h3 h4 show ?thesis by blast
qed

text \<open>
  C4. Merging the same table for the same address twice in a row leaves the files as one
  merge leaves them: the second merge changes no file.
\<close>

theorem remerge_same_table_idempotent:
  "files (snd (append_gas_table_to_output_file f a t
                 (snd (append_gas_table_to_output_file f a t w))))
     = files (snd (append_gas_table_to_output_file f a t w))"
proof (cases "updated_costs (parsed_costs w f) a t")
  case (Inl e)
  then show ?thesis by (simp add: append_result parsed_costs_def)
next
  case (Inr r)
  show ?thesis
  proof (cases r)
    case None
    with Inr show ?thesis by (simp add: append_result parsed_costs_def)
  next
    case (Some costs')
    with Inr have first: "updated_costs (parsed_costs w f) a t = Inr (Some costs')" by simp
    then have "\<And>costs''. updated_costs costs' a t \<noteq> Inr (Some costs'')"
      by (rule updated_costs_again)
    with first show ?thesis
      by (simp add: append_files parsed_costs_def split: sum.splits option.splits)
  qed
qed

theorem remerge_same_table_idempotent_witness:
  "files (snd (append_gas_table_to_output_file STABLESWAP_GAS_TABLE_FILE ''0xA'' (sample_table 501)
                 (snd (append_gas_table_to_output_file STABLESWAP_GAS_TABLE_FILE ''0xA''
                         (sample_table 501) sample_cache))))
     = [STABLESWAP_GAS_TABLE_FILE \<mapsto>
          Document (JDict [(''0xA'', sample_table 501), (''0xB'', sample_table 7)])]"
  using remerge_same_table_idempotent
          [of STABLESWAP_GAS_TABLE_FILE "''0xA''" "sample_table 501" sample_cache]
  by (simp only: sample_merge_501)

subsection \<open>More of the sample inputs\<close>

lemma sample_updated_501:
  "updated_costs (parsed_costs sample_cache STABLESWAP_GAS_TABLE_FILE) ''0xA'' (sample_table 501)
     = Inr (Some (JDict [(''0xA'', sample_table 501), (''0xB'', sample_table 7)]))"
  by (simp add: parsed_costs_def sample_cache_def updated_costs_def try_then_def sample_table_def)

lemma sample_wrote_501:
  "wrote sample_cache
     (snd (append_gas_table_to_output_file STABLESWAP_GAS_TABLE_FILE ''0xA'' (sample_table 501)
             sample_cache)) STABLESWAP_GAS_TABLE_FILE"
  by (simp add: wrote_append_iff sample_updated_501)

lemma sample_not_wrote_500:
  "\<not> wrote sample_cache
     (snd (append_gas_table_to_output_file STABLESWAP_GAS_TABLE_FILE ''0xA'' (sample_table 500)
             sample_cache)) STABLESWAP_GAS_TABLE_FILE"
  by (simp add: wrote_append_iff parsed_costs_def sample_cache_def updated_costs_def try_then_def
        sample_table_def)

section \<open>The claims about what a merge touches\<close>

text \<open>
  C7. When a merge opens the file for writing, the file held the document of a dict, and
  holds afterwards that dict with the key of the merged address rebound to the new table
  and the keys in the same order. Whatever the merge does, the entry of every other
  address in the file, and every other file, stay as they were.
\<close>

theorem merge_rebinds_one_key:
  "(wrote w (snd (append_gas_table_to_output_file f a t w)) f \<longrightarrow>
      (\<exists>m. files w f = Some (Document (JDict m))
         \<and> files (snd (append_gas_table_to_output_file f a t w))
             = (files w)(f \<mapsto> Document (JDict (AList.update a t m)))
         \<and> map fst (AList.update a t m) = map fst m))
   \<and> (\<forall>b. b \<noteq> a \<longrightarrow>
         stored (snd (append_gas_table_to_output_file f a t w)) f b = stored w f b)
   \<and> (\<forall>g. g \<noteq> f \<longrightarrow>
         files (snd (append_gas_table_to_output_file f a t w)) g = files w g)"
proof (intro conjI impI allI)
  assume "wrote w (snd (append_gas_table_to_output_file f a t w)) f"
  then obtain costs' where "updated_costs (parsed_costs w f) a t = Inr (Some costs')"
    unfolding wrote_append_iff by blast
  from append_replaced [OF this] obtain m where m:
    "files w f = Some (Document (JDict m))" "map_of m a \<noteq> None"
    "files (snd (append_gas_table_to_output_file f a t w))
       = (files w)(f \<mapsto> Document (JDict (AList.update a t m)))"
    by blast
  from m(2) have "a \<in> set (map fst m)"
    by (simp add: map_of_eq_None_iff)
  then have "map fst (AList.update a t m) = map fst m"
    by (simp add: update_keys)
  with m(1,3) show "\<exists>m. files w f = Some (Document (JDict m))
         \<and> files (snd (append_gas_table_to_output_file f a t w))
             = (files w)(f \<mapsto> Document (JDict (AList.update a t m)))
         \<and> map fst (AList.update a t m) = map fst m"
    by blast
next
  fix b assume "b \<noteq> a"
  then show "stored (snd (append_gas_table_to_output_file f a t w)) f b = stored w f b"
    by (rule append_frame)
next
  fix g assume "g \<noteq> f"
  then show "files (snd (append_gas_table_to_output_file f a t w)) g = files w g"
    by (simp add: append_files split: sum.splits option.splits)
qed

theorem merge_rebinds_one_key_witness:
  "wrote sample_cache
     (snd (append_gas_table_to_output_file STABLESWAP_GAS_TABLE_FILE ''0xA'' (sample_table 501)
             sample_cache)) STABLESWAP_GAS_TABLE_FILE
   \<and> files (snd (append_gas_table_to_output_file STABLESWAP_GAS_TABLE_FILE ''0xA''
                    (sample_table 501) sample_cache))
       = [STABLESWAP_GAS_TABLE_FILE \<mapsto>
            Document (JDict [(''0xA'', sample_table 501), (''0xB'', sample_table 7)])]
   \<and> stored (snd (append_gas_table_to_output_file STABLESWAP_GAS_TABLE_FILE ''0xA''
                    (sample_table 501) sample_cache)) STABLESWAP_GAS_TABLE_FILE ''0xB''
       = Some (sample_table 7)
   \<and> files (snd (append_gas_table_to_output_file STABLESWAP_GAS_TABLE_FILE ''0xA''
                    (sample_table 501) sample_cache)) ''notes.txt''
       = None"
proof -
  note inst = merge_rebinds_one_key
                [of sample_cache STABLESWAP_GAS_TABLE_FILE "''0xA''" "sample_table 501"]
  have "''0xB'' \<noteq> ''0xA''" by simp
  then have b: "stored (snd (append_gas_table_to_output_file STABLESWAP_GAS_TABLE_FILE ''0xA''
                    (sample_table 501) sample_cache)) STABLESWAP_GAS_TABLE_FILE ''0xB''
       = stored sample_cache STABLESWAP_GAS_TABLE_FILE ''0xB''"
    by (rule inst [THEN conjunct2, THEN conjunct1, rule_format])
  have "''notes.txt'' \<noteq> STABLESWAP_GAS_TABLE_FILE"
    by (simp add: STABLESWAP_GAS_TABLE_FILE_def)
  then have g: "files (snd (append_gas_table_to_output_file STABLESWAP_GAS_TABLE_FILE ''0xA''
                    (sample_table 501) sample_cache)) ''notes.txt'' = files sample_cache ''notes.txt''"
    by (rule inst [THEN conjunct2, THEN conjunct2, rule_format])
  have n: "files sample_cache ''notes.txt'' = None"
    by (simp add: sample_cache_def STABLESWAP_GAS_TABLE_FILE_def)
  note b' = trans [OF b stored_sample_cache(2)]
  note g' = trans [OF g n]
  from sample_wrote_501 sample_merge_501 b' g' show ?thesis by (intro conjI)
qed

text \<open>
  C9. A merge opens the file for writing exactly when the address has an entry in the
  parsed file, the entry and the new table both have a \<^verbatim>\<open>count\<close>, and the new count is
  greater than the stored one by Python's \<^verbatim>\<open>>\<close>; when it does not open the file for
  writing, no file changes; and for an address without an entry it never does.
\<close>

theorem write_only_on_greater_count:
  "(wrote w (snd (append_gas_table_to_output_file f a t w)) f \<longleftrightarrow>
      (\<exists>entry c c'. stored w f a = Some entry \<and> py_getitem entry ''count'' = Inr c
          \<and> py_getitem t ''count'' = Inr c' \<and> py_gt c' c = Inr True))
   \<and> (\<not> wrote w (snd (append_gas_table_to_output_file f a t w)) f \<longrightarrow>
         files (snd (append_gas_table_to_output_file f a t w)) = files w)
   \<and> (stored w f a = None \<longrightarrow>
         \<not> wrote w (snd (append_gas_table_to_output_file f a t w)) f)"
proof (intro conjI impI)
  show "wrote w (snd (append_gas_table_to_output_file f a t w)) f \<longleftrightarrow>
      (\<exists>entry c c'. stored w f a = Some entry \<and> py_getitem entry ''count'' = Inr c
          \<and> py_getitem t ''count'' = Inr c' \<and> py_gt c' c = Inr True)"
    unfolding wrote_append_iff updated_costs_Some_iff stored_iff by blast
next
  assume "\<not> wrote w (snd (append_gas_table_to_output_file f a t w)) f"
  then have "\<And>costs'. updated_costs (parsed_costs w f) a t \<noteq> Inr (Some costs')"
    unfolding wrote_append_iff by blast
  then show "files (snd (append_gas_table_to_output_file f a t w)) = files w"
    by (rule append_not_replaced)
next
  assume "stored w f a = None"
  then have "\<And>costs'. updated_costs (parsed_costs w f) a t \<noteq> Inr (Some costs')"
    by (auto simp: updated_costs_Some_iff stored_None_iff)
  then show "\<not> wrote w (snd (append_gas_table_to_output_file f a t w)) f"
    unfolding wrote_append_iff by blast
qed

theorem write_only_on_greater_count_witness:
  "wrote sample_cache
     (snd (append_gas_table_to_output_file STABLESWAP_GAS_TABLE_FILE ''0xA'' (sample_table 501)
             sample_cache)) STABLESWAP_GAS_TABLE_FILE
   \<and> files (snd (append_gas_table_to_output_file STABLESWAP_GAS_TABLE_FILE ''0xA''
                    (sample_table 500) sample_cache)) = files sample_cache
   \<and> files (snd (append_gas_table_to_output_file STABLESWAP_GAS_TABLE_FILE ''0xC''
                    (sample_table 501) sample_cache)) = files sample_cache"
proof -
  have gt: "py_gt (JInt 501) (JInt 500) = Inr True" by simp
  have "stored sample_cache STABLESWAP_GAS_TABLE_FILE ''0xA'' = Some (sample_table 500)
          \<and> py_getitem (sample_table 500) ''count'' = Inr (JInt 500)
          \<and> py_getitem (sample_table 501) ''count'' = Inr (JInt 501)
          \<and> py_gt (JInt 501) (JInt 500) = Inr True"
    by (simp only: stored_sample_cache sample_table_count gt simp_thms)
  then have ex: "\<exists>entry c c'. stored sample_cache STABLESWAP_GAS_TABLE_FILE ''0xA'' = Some entry
          \<and> py_getitem entry ''count'' = Inr c
          \<and> py_getitem (sample_table 501) ''count'' = Inr c' \<and> py_gt c' c = Inr True"
    by (intro exI)
  have w1: "wrote sample_cache
     (snd (append_gas_table_to_output_file STABLESWAP_GAS_TABLE_FILE ''0xA'' (sample_table 501)
             sample_cache)) STABLESWAP_GAS_TABLE_FILE"
    using ex
    by (rule write_only_on_greater_count
               [of sample_cache STABLESWAP_GAS_TABLE_FILE "''0xA''" "sample_table 501",
                THEN conjunct1, THEN iffD2])
  have w2: "files (snd (append_gas_table_to_output_file STABLESWAP_GAS_TABLE_FILE ''0xA''
                    (sample_table 500) sample_cache)) = files sample_cache"
    using sample_not_wrote_500
    by (rule write_only_on_greater_count
               [of sample_cache STABLESWAP_GAS_TABLE_FILE "''0xA''" "sample_table 500",
                THEN conjunct2, THEN conjunct1, rule_format])
  have "\<not> wrote sample_cache
     (snd (append_gas_table_to_output_file STABLESWAP_GAS_TABLE_FILE ''0xC'' (sample_table 501)
             sample_cache)) STABLESWAP_GAS_TABLE_FILE"
    using stored_sample_cache(3)
    by (rule write_only_on_greater_count
               [of sample_cache STABLESWAP_GAS_TABLE_FILE "''0xC''" "sample_table 501",
                THEN conjunct2, THEN conjunct2, rule_format])
  then have w3: "files (snd (append_gas_table_to_output_file STABLESWAP_GAS_TABLE_FILE ''0xC''
                    (sample_table 501) sample_cache)) = files sample_cache"
    by (rule write_only_on_greater_count
               [of sample_cache STABLESWAP_GAS_TABLE_FILE "''0xC''" "sample_table 501",
                THEN conjunct2, THEN conjunct1, rule_format])
  from w1 w2 w3 show ?thesis by (intro conjI)
qed

section \<open>Facts about the scan\<close>

lemma get_pools_loop_distinct:
  "distinct pools \<Longrightarrow> get_pools_loop pl idx pools = Inr ps \<Longrightarrow> distinct ps"
proof (induction idx arbitrary: pools)
  case Nil
  then show ?case by simp
next
  case (Cons i idx)
  show ?case
  proof (cases "pl i")
    case (Inl e)
    with Cons.prems show ?thesis by simp
  next
    case (Inr pool)
    with Cons.prems(2)
    have "get_pools_loop pl idx (if pool \<notin> set pools then pools @ [pool] else pools) = Inr ps"
      by simp
    moreover from Cons.prems(1)
    have "distinct (if pool \<notin> set pools then pools @ [pool] else pools)" by simp
    ultimately show ?thesis by (rule Cons.IH [rotated])
  qed
qed

lemma get_pools_distinct: "get_pools ch registry = Inr ps \<Longrightarrow> distinct ps"
  unfolding get_pools_def
  by (auto simp: try_then_Inr_iff intro: get_pools_loop_distinct [of "[]"])

lemma list_of_set_distinct: "distinct (list_of_set sl xs)"
  by (simp add: list_of_set_def)

lemma registry_pools_distinct: "registry_pools ch = Inr pools \<Longrightarrow> distinct pools"
  unfolding registry_pools_def
  by (auto simp: try_then_Inr_iff list_of_set_distinct)

lemma distinct_count_list_le: "distinct xs \<Longrightarrow> count_list xs x \<le> 1"
  by (induction xs) (auto simp: count_list_0_iff)

lemma trace_emit [simp]: "trace (emit e w) = trace w @ [e]"
  by (simp add: emit_def)

lemma files_emit [simp]: "files (emit e w) = files w"
  by (simp add: emit_def)

lemma merge_prefix_emit [simp]: "merge_prefix f a (emit e w) = merge_prefix f a w"
  by (simp add: merge_prefix_def)

lemma count_merge_prefix:
  "count_list (merge_prefix f a w) (Computing b) = 0"
  "count_list (merge_prefix f a w) (Merging g b) = (if g = f \<and> b = a then 1 else 0)"
  by (simp_all add: merge_prefix_def)

text \<open>What a merge adds to the trace.\<close>

lemma append_adds:
  "\<exists>evs. trace (snd (append_gas_table_to_output_file f a t w)) = trace w @ evs
     \<and> (\<forall>b. count_list evs (Computing b) = 0)
     \<and> (\<forall>g b. count_list evs (Merging g b) \<le> (if b = a then 1 else 0))"
proof (cases "updated_costs (parsed_costs w f) a t")
  case (Inl e)
  then show ?thesis by (simp add: append_trace count_merge_prefix)
next
  case (Inr r)
  then show ?thesis by (cases r) (simp_all add: append_trace count_merge_prefix)
qed


lemma scan_attempt_adds:
  "\<exists>evs. trace (snd (scan_attempt ch m p pool w)) = trace w @ evs
     \<and> (\<forall>b. count_list evs (Computing b) \<le> (if b = p then 1 else 0))
     \<and> (\<forall>g b. count_list evs (Merging g b) \<le> (if b = p then 1 else 0))"
proof (cases "get_gas_table_for_stableswap_pool ch pool m")
  case (Inl e)
  then have "trace (snd (scan_attempt ch m p pool w)) = trace w @ [Computing p]"
    by (simp add: scan_attempt_def)
  then show ?thesis by simp
next
  case (Inr t)
  show ?thesis
  proof (cases "py_bool t")
    case False
    with Inr have "trace (snd (scan_attempt ch m p pool w)) = trace w @ [Computing p]"
      by (simp add: scan_attempt_def)
    then show ?thesis by simp
  next
    case True
    from append_adds [of STABLESWAP_GAS_TABLE_FILE p t "emit (Computing p) w"]
    obtain evs where evs:
      "trace (snd (append_gas_table_to_output_file STABLESWAP_GAS_TABLE_FILE p t
                     (emit (Computing p) w))) = trace (emit (Computing p) w) @ evs"
      "\<forall>b. count_list evs (Computing b) = 0"
      "\<forall>g b. count_list evs (Merging g b) \<le> (if b = p then 1 else 0)"
      by blast
    from Inr True evs(1)
    have "trace (snd (scan_attempt ch m p pool w)) = trace w @ (Computing p # evs)"
      by (simp add: scan_attempt_def)
    moreover from evs(2) have "\<forall>b. count_list (Computing p # evs) (Computing b) \<le> (if b = p then 1 else 0)"
      by simp
    moreover from evs(3) have "\<forall>g b. count_list (Computing p # evs) (Merging g b) \<le> (if b = p then 1 else 0)"
      by simp
    ultimately show ?thesis by blast
  qed
qed

lemma trace_report [simp]:
  "trace (report_and_move_on p e w) =
     trace w @ [PrintException e, Print (''Error getting gas costs for [red]'' @ p @ ''. Moving on ...'')]"
  by (simp add: report_and_move_on_def)

lemma files_report [simp]: "files (report_and_move_on p e w) = files w"
  by (simp add: report_and_move_on_def)

lemma scan_pool_adds:
  "\<exists>evs. trace (snd (scan_pool ch m p w)) = trace w @ evs
     \<and> (\<forall>b. count_list evs (Computing b) \<le> (if b = p then 1 else 0))
     \<and> (\<forall>g b. count_list evs (Merging g b) \<le> (if b = p then 1 else 0))"
proof (cases "Contract ch p")
  case (Inl e)
  then have "trace (snd (scan_pool ch m p w)) = trace w @ []"
    by (simp add: scan_pool_def)
  then show ?thesis by (intro exI [of _ "[]"]) simp
next
  case (Inr pool)
  from scan_attempt_adds [of ch m p pool w] obtain evs where evs:
    "trace (snd (scan_attempt ch m p pool w)) = trace w @ evs"
    "\<forall>b. count_list evs (Computing b) \<le> (if b = p then 1 else 0)"
    "\<forall>g b. count_list evs (Merging g b) \<le> (if b = p then 1 else 0)"
    by blast
  obtain r w' where rw: "scan_attempt ch m p pool w = (r, w')" by (cases "scan_attempt ch m p pool w")
  with evs(1) have w': "trace w' = trace w @ evs" by simp
  show ?thesis
  proof (cases r)
    case (Inr u)
    with \<open>Contract ch p = Inr pool\<close> rw w' have "trace (snd (scan_pool ch m p w)) = trace w @ evs"
      by (simp add: scan_pool_def)
    with evs(2,3) show ?thesis by blast
  next
    case (Inl e)
    let ?more = "[PrintException e, Print (''Error getting gas costs for [red]'' @ p @ ''. Moving on ...'')]"
    from Inl \<open>Contract ch p = Inr pool\<close> rw w'
    have "trace (snd (scan_pool ch m p w)) = trace w @ (evs @ ?more)"
      by (simp add: scan_pool_def)
    moreover from evs(2) have "\<forall>b. count_list (evs @ ?more) (Computing b) \<le> (if b = p then 1 else 0)"
      by simp
    moreover from evs(3) have "\<forall>g b. count_list (evs @ ?more) (Merging g b) \<le> (if b = p then 1 else 0)"
      by simp
    ultimately show ?thesis by blast
  qed
qed

lemma scan_pools_adds:
  "\<exists>evs. trace (snd (scan_pools ch m ps w)) = trace w @ evs
     \<and> (\<forall>b. count_list evs (Computing b) \<le> count_list ps b)
     \<and> (\<forall>g b. count_list evs (Merging g b) \<le> count_list ps b)"
proof (induction ps arbitrary: w)
  case Nil
  show ?case by (intro exI [of _ "[]"]) simp
next
  case (Cons p ps)
  from scan_pool_adds [of ch m p w] obtain evs1 where evs1:
    "trace (snd (scan_pool ch m p w)) = trace w @ evs1"
    "\<forall>b. count_list evs1 (Computing b) \<le> (if b = p then 1 else 0)"
    "\<forall>g b. count_list evs1 (Merging g b) \<le> (if b = p then 1 else 0)"
    by blast
  obtain r w' where rw: "scan_pool ch m p w = (r, w')" by (cases "scan_pool ch m p w")
  with evs1(1) have w': "trace w' = trace w @ evs1" by simp
  show ?case
  proof (cases r)
    case (Inl e)
    with rw w' have "trace (snd (scan_pools ch m (p # ps) w)) = trace w @ evs1" by simp
    moreover have "\<forall>b. count_list evs1 (Computing b) \<le> count_list (p # ps) b"
    proof
      fix b
      from evs1(2) have "count_list evs1 (Computing b) \<le> (if b = p then 1 else 0)" by blast
      then show "count_list evs1 (Computing b) \<le> count_list (p # ps) b"
        by (simp split: if_splits)
    qed
    moreover have "\<forall>g b. count_list evs1 (Merging g b) \<le> count_list (p # ps) b"
    proof (intro allI)
      fix g b
      from evs1(3) have "count_list evs1 (Merging g b) \<le> (if b = p then 1 else 0)" by blast
      then show "count_list evs1 (Merging g b) \<le> count_list (p # ps) b"
        by (simp split: if_splits)
    qed
    ultimately show ?thesis by blast
  next
    case (Inr u)
    from Cons.IH [of w'] obtain evs2 where evs2:
      "trace (snd (scan_pools ch m ps w')) = trace w' @ evs2"
      "\<forall>b. count_list evs2 (Computing b) \<le> count_list ps b"
      "\<forall>g b. count_list evs2 (Merging g b) \<le> count_list ps b"
      by blast
    from Inr rw w' evs2(1)
    have "trace (snd (scan_pools ch m (p # ps) w)) = trace w @ (evs1 @ evs2)" by simp
    moreover have "\<forall>b. count_list (evs1 @ evs2) (Computing b) \<le> count_list (p # ps) b"
    proof
      fix b
      from evs1(2) have "count_list evs1 (Computing b) \<le> (if b = p then 1 else 0)" by blast
      moreover from evs2(2) have "count_list evs2 (Computing b) \<le> count_list ps b" by blast
      ultimately show "count_list (evs1 @ evs2) (Computing b) \<le> count_list (p # ps) b"
        by (simp split: if_splits)
    qed
    moreover have "\<forall>g b. count_list (evs1 @ evs2) (Merging g b) \<le> count_list (p # ps) b"
    proof (intro allI)
      fix g b
      from evs1(3) have "count_list evs1 (Merging g b) \<le> (if b = p then 1 else 0)" by blast
      moreover from evs2(3) have "count_list evs2 (Merging g b) \<le> count_list ps b" by blast
      ultimately show "count_list (evs1 @ evs2) (Merging g b) \<le> count_list (p # ps) b"
        by (simp split: if_splits)
    qed
    ultimately show ?thesis by blast
  qed
qed


lemma sample_get_pools: "get_pools sample_chain MAIN_REGISTRY = Inr [''0xA'', ''0xB'']"
  by code_simp

lemma sample_get_pools2: "get_pools sample_chain STABLESWAP_FACTORY = Inr [''0xB'', ''0xC'', ''0xD'']"
  by code_simp

lemma sample_registry_pools: "registry_pools sample_chain = Inr [''0xD'', ''0xC'', ''0xB'', ''0xA'']"
  by code_simp


lemma set_list_of_set [simp]: "set (list_of_set sl xs) = set xs"
  by (simp add: list_of_set_def)

lemma registry_pools_Inr:
  assumes "registry_pools ch = Inr pools"
  shows "\<exists>xs ys. get_pools ch MAIN_REGISTRY = Inr xs \<and> get_pools ch STABLESWAP_FACTORY = Inr ys
           \<and> pools = list_of_set (slot ch) (xs @ ys)"
  using assms unfolding registry_pools_def
  by (auto simp: try_then_Inr_iff split: sum.splits)

lemma events_since_trace: "trace w' = trace w @ evs \<Longrightarrow> events_since w w' = evs"
  by (simp add: events_since_def)

lemma registry_run_adds:
  "\<exists>evs. trace (snd (get_gas_costs_for_stableswap_registry_pools ch m w)) = trace w @ evs
     \<and> (\<forall>b. count_list evs (Computing b) \<le> 1)
     \<and> (\<forall>g b. count_list evs (Merging g b) \<le> 1)"
proof (cases "registry_pools ch")
  case (Inl e)
  then have "trace (snd (get_gas_costs_for_stableswap_registry_pools ch m w))
               = trace w @ [Print ''Getting all stableswap pools ...'']"
    by (simp add: get_gas_costs_for_stableswap_registry_pools_def)
  then show ?thesis by simp
next
  case (Inr pools)
  let ?w2 = "emit (Print (''... found [red]'' @ str_nat (length pools) @ '' pools.''))
               (emit (Print ''Getting all stableswap pools ...'') w)"
  let ?head = "[Print ''Getting all stableswap pools ...'',
                Print (''... found [red]'' @ str_nat (length pools) @ '' pools.'')]"
  from scan_pools_adds [of ch m pools ?w2] obtain evs where evs:
    "trace (snd (scan_pools ch m pools ?w2)) = trace ?w2 @ evs"
    "\<forall>b. count_list evs (Computing b) \<le> count_list pools b"
    "\<forall>g b. count_list evs (Merging g b) \<le> count_list pools b"
    by blast
  from Inr have d: "distinct pools" by (rule registry_pools_distinct)
  from Inr evs(1)
  have "trace (snd (get_gas_costs_for_stableswap_registry_pools ch m w)) = trace w @ (?head @ evs)"
    by (simp add: get_gas_costs_for_stableswap_registry_pools_def)
  moreover have "\<forall>b. count_list (?head @ evs) (Computing b) \<le> 1"
  proof
    fix b
    from evs(2) have "count_list evs (Computing b) \<le> count_list pools b" by blast
    also from d have "\<dots> \<le> 1" by (rule distinct_count_list_le)
    finally show "count_list (?head @ evs) (Computing b) \<le> 1" by simp
  qed
  moreover have "\<forall>g b. count_list (?head @ evs) (Merging g b) \<le> 1"
  proof (intro allI)
    fix g b
    from evs(3) have "count_list evs (Merging g b) \<le> count_list pools b" by blast
    also from d have "\<dots> \<le> 1" by (rule distinct_count_list_le)
    finally show "count_list (?head @ evs) (Merging g b) \<le> 1" by simp
  qed
  ultimately show ?thesis by blast
qed

lemma sample_run_events:
  "count_list (events_since sample_cache
       (snd (get_gas_costs_for_stableswap_registry_pools sample_chain 500 sample_cache)))
     (Computing ''0xB'') = 1"
  "count_list (events_since sample_cache
       (snd (get_gas_costs_for_stableswap_registry_pools sample_chain 500 sample_cache)))
     (Merging STABLESWAP_GAS_TABLE_FILE ''0xB'') = 1"
  by code_simp+

section \<open>The claims about the commands\<close>

text \<open>
  C10. The list that \<^verbatim>\<open>__get_pools\<close> returns has no duplicates; the pool list of the
  scan has no duplicates and holds the pools of both registries; and in a run of the scan,
  for every address, the gas-table helper is called at most once and the merge is called
  at most once.
\<close>

theorem each_pool_scanned_once:
  "(get_pools ch registry = Inr found \<longrightarrow> distinct found)
   \<and> (registry_pools ch = Inr pools \<longrightarrow>
         distinct pools
         \<and> (\<exists>xs ys. get_pools ch MAIN_REGISTRY = Inr xs
               \<and> get_pools ch STABLESWAP_FACTORY = Inr ys \<and> set pools = set xs \<union> set ys))
   \<and> count_list (events_since w (snd (get_gas_costs_for_stableswap_registry_pools ch m w)))
        (Computing a) \<le> 1
   \<and> count_list (events_since w (snd (get_gas_costs_for_stableswap_registry_pools ch m w)))
        (Merging STABLESWAP_GAS_TABLE_FILE a) \<le> 1"
proof -
  from registry_run_adds [of ch m w] obtain evs where evs:
    "trace (snd (get_gas_costs_for_stableswap_registry_pools ch m w)) = trace w @ evs"
    "\<forall>b. count_list evs (Computing b) \<le> 1"
    "\<forall>g b. count_list evs (Merging g b) \<le> 1"
    by blast
  from evs(1) have "events_since w (snd (get_gas_costs_for_stableswap_registry_pools ch m w)) = evs"
    by (rule events_since_trace)
  moreover have "registry_pools ch = Inr pools \<longrightarrow>
         distinct pools
         \<and> (\<exists>xs ys. get_pools ch MAIN_REGISTRY = Inr xs
               \<and> get_pools ch STABLESWAP_FACTORY = Inr ys \<and> set pools = set xs \<union> set ys)"
  proof
    assume r: "registry_pools ch = Inr pools"
    from registry_pools_Inr [OF r] obtain xs ys where
      "get_pools ch MAIN_REGISTRY = Inr xs" "get_pools ch STABLESWAP_FACTORY = Inr ys"
      "pools = list_of_set (slot ch) (xs @ ys)"
      by blast
    then have "\<exists>xs ys. get_pools ch MAIN_REGISTRY = Inr xs
               \<and> get_pools ch STABLESWAP_FACTORY = Inr ys \<and> set pools = set xs \<union> set ys"
      by auto
    with registry_pools_distinct [OF r] show "distinct pools
         \<and> (\<exists>xs ys. get_pools ch MAIN_REGISTRY = Inr xs
               \<and> get_pools ch STABLESWAP_FACTORY = Inr ys \<and> set pools = set xs \<union> set ys)"
      by blast
  qed
  moreover have "get_pools ch registry = Inr found \<longrightarrow> distinct found"
    by (auto dest: get_pools_distinct)
  ultimately show ?thesis using evs(2,3) by simp
qed

theorem each_pool_scanned_once_witness:
  "get_pools sample_chain MAIN_REGISTRY = Inr [''0xA'', ''0xB'']
   \<and> distinct [''0xA'', ''0xB'']
   \<and> registry_pools sample_chain = Inr [''0xD'', ''0xC'', ''0xB'', ''0xA'']
   \<and> distinct [''0xD'', ''0xC'', ''0xB'', ''0xA'']
   \<and> count_list (events_since sample_cache
         (snd (get_gas_costs_for_stableswap_registry_pools sample_chain 500 sample_cache)))
        (Computing ''0xB'') \<le> 1
   \<and> count_list (events_since sample_cache
         (snd (get_gas_costs_for_stableswap_registry_pools sample_chain 500 sample_cache)))
        (Merging STABLESWAP_GAS_TABLE_FILE ''0xB'') \<le> 1"
proof -
  note inst = each_pool_scanned_once
     [of sample_chain MAIN_REGISTRY "[''0xA'', ''0xB'']" "[''0xD'', ''0xC'', ''0xB'', ''0xA'']"
         sample_cache 500 "''0xB''"]
  note d1 = inst [THEN conjunct1, rule_format, OF sample_get_pools]
  note d2 = inst [THEN conjunct2, THEN conjunct1, rule_format, OF sample_registry_pools,
                  THEN conjunct1]
  note c1 = inst [THEN conjunct2, THEN conjunct2, THEN conjunct1]
  note c2 = inst [THEN conjunct2, THEN conjunct2, THEN conjunct2]
  from sample_get_pools d1 sample_registry_pools d2 c1 c2 show ?thesis by (intro conjI)
qed

text \<open>
  C5. When the helper returns the empty table for a pool, neither the scan of the
  registries nor the single-pool command calls the merge: the command goes on normally,
  every file is as before, and the only event added is the call of the helper.
\<close>

theorem empty_table_skips_merge:
  "(Contract ch pool_addr = Inr pool
      \<and> get_gas_table_for_stableswap_pool ch pool min_transactions = Inr (JDict []) \<longrightarrow>
        fst (scan_pool ch min_transactions pool_addr w) = Inr ()
      \<and> files (snd (scan_pool ch min_transactions pool_addr w)) = files w
      \<and> events_since w (snd (scan_pool ch min_transactions pool_addr w)) = [Computing pool_addr])
   \<and> (Contract ch pool_addr = Inr pool
      \<and> get_gas_table_for_stableswap_pool_in_block_range ch pool start_block end_block
            = Inr (JDict []) \<longrightarrow>
        fst (get_gas_costs_for_stableswap_pool ch pool_addr start_block end_block w) = Inr ()
      \<and> files (snd (get_gas_costs_for_stableswap_pool ch pool_addr start_block end_block w))
            = files w
      \<and> events_since w (snd (get_gas_costs_for_stableswap_pool ch pool_addr start_block end_block w))
            = [Computing (address pool)])"
  by (simp add: scan_pool_def scan_attempt_def get_gas_costs_for_stableswap_pool_def
        events_since_def)

lemma sample_contract: "Contract sample_chain a = Inr \<lparr>address = a, shown = a\<rparr>"
  by (simp add: sample_chain_def)

lemma sample_helper_C: "sample_helper \<lparr>address = ''0xC'', shown = ''0xC''\<rparr> = Inr (JDict [])"
  by (simp add: sample_helper_def)

lemma sample_chain_helpers:
  "get_gas_table_for_stableswap_pool sample_chain pool m = sample_helper pool"
  "get_gas_table_for_stableswap_pool_in_block_range sample_chain pool s e = sample_helper pool"
  by (simp_all add: sample_chain_def)

theorem empty_table_skips_merge_witness:
  "Contract sample_chain ''0xC'' = Inr \<lparr>address = ''0xC'', shown = ''0xC''\<rparr>
   \<and> get_gas_table_for_stableswap_pool sample_chain \<lparr>address = ''0xC'', shown = ''0xC''\<rparr> 500
        = Inr (JDict [])
   \<and> get_gas_table_for_stableswap_pool_in_block_range sample_chain
          \<lparr>address = ''0xC'', shown = ''0xC''\<rparr> 100 200
        = Inr (JDict [])
   \<and> files (snd (scan_pool sample_chain 500 ''0xC'' sample_cache)) = files sample_cache
   \<and> events_since sample_cache (snd (scan_pool sample_chain 500 ''0xC'' sample_cache))
        = [Computing ''0xC'']
   \<and> files (snd (get_gas_costs_for_stableswap_pool sample_chain ''0xC'' 100 200 sample_cache))
        = files sample_cache
   \<and> events_since sample_cache
          (snd (get_gas_costs_for_stableswap_pool sample_chain ''0xC'' 100 200 sample_cache))
        = [Computing ''0xC'']"
proof -
  have c: "Contract sample_chain ''0xC'' = Inr \<lparr>address = ''0xC'', shown = ''0xC''\<rparr>"
    by (rule sample_contract)
  have h1: "get_gas_table_for_stableswap_pool sample_chain \<lparr>address = ''0xC'', shown = ''0xC''\<rparr> 500
        = Inr (JDict [])"
    by (simp only: sample_chain_helpers sample_helper_C)
  have h2: "get_gas_table_for_stableswap_pool_in_block_range sample_chain
          \<lparr>address = ''0xC'', shown = ''0xC''\<rparr> 100 200 = Inr (JDict [])"
    by (simp only: sample_chain_helpers sample_helper_C)
  note inst = empty_table_skips_merge
      [of sample_chain "''0xC''" "\<lparr>address = ''0xC'', shown = ''0xC''\<rparr>" 500 sample_cache 100 200]
  note batch = inst [THEN conjunct1, rule_format, OF conjI, OF c h1]
  note single = inst [THEN conjunct2, rule_format, OF conjI, OF c h2]
  have a: "address \<lparr>address = ''0xC'', shown = ''0xC''\<rparr> = ''0xC''" by simp
  from c h1 h2 batch [THEN conjunct2, THEN conjunct1] batch [THEN conjunct2, THEN conjunct2]
       single [THEN conjunct2, THEN conjunct1] single [THEN conjunct2, THEN conjunct2, unfolded a]
  show ?thesis by (intro conjI)
qed


text \<open>
  C6. In the scan of the registries, an exception raised by the helper for a pool, or by
  the merge of its table, is reported, and the scan goes on with the rest of the pools
  from the world the handler leaves. In the single-pool command the same exception is the
  result of the command. In both, the contract object of the pool has been made before:
  that step stands outside the \<^verbatim>\<open>try\<close> of the scan.
\<close>

theorem scan_catches_single_pool_propagates:
  "(Contract ch pool_addr = Inr pool
      \<and> get_gas_table_for_stableswap_pool ch pool min_transactions = Inl e \<longrightarrow>
        scan_pools ch min_transactions (pool_addr # rest) w
          = scan_pools ch min_transactions rest
              (report_and_move_on pool_addr e (emit (Computing pool_addr) w)))
   \<and> (Contract ch pool_addr = Inr pool
      \<and> get_gas_table_for_stableswap_pool ch pool min_transactions = Inr t \<and> py_bool t
      \<and> append_gas_table_to_output_file STABLESWAP_GAS_TABLE_FILE pool_addr t
            (emit (Computing pool_addr) w) = (Inl e, w') \<longrightarrow>
        scan_pools ch min_transactions (pool_addr # rest) w
          = scan_pools ch min_transactions rest (report_and_move_on pool_addr e w'))
   \<and> (Contract ch pool_addr = Inr pool
      \<and> get_gas_table_for_stableswap_pool_in_block_range ch pool start_block end_block = Inl e \<longrightarrow>
        get_gas_costs_for_stableswap_pool ch pool_addr start_block end_block w
          = (Inl e, emit (Computing (address pool)) w))
   \<and> (Contract ch pool_addr = Inr pool
      \<and> get_gas_table_for_stableswap_pool_in_block_range ch pool start_block end_block = Inr t
      \<and> py_bool t
      \<and> append_gas_table_to_output_file STABLESWAP_GAS_TABLE_FILE (address pool) t
            (emit (Computing (address pool)) w) = (Inl e, w') \<longrightarrow>
        get_gas_costs_for_stableswap_pool ch pool_addr start_block end_block w = (Inl e, w'))"
  by (simp add: scan_pool_def scan_attempt_def get_gas_costs_for_stableswap_pool_def)


lemma sample_helper_A: "sample_helper \<lparr>address = ''0xA'', shown = ''0xA''\<rparr> = Inl (Upstream ''timeout'')"
  by (simp add: sample_helper_def)

lemma sample_helper_B: "sample_helper \<lparr>address = ''0xB'', shown = ''0xB''\<rparr> = Inr table_without_count"
  by (simp add: sample_helper_def)

lemma sample_merge_without_count:
  "fst (append_gas_table_to_output_file STABLESWAP_GAS_TABLE_FILE ''0xB'' table_without_count
          (emit (Computing ''0xB'') sample_cache)) = Inl (KeyError ''count'')"
  by (simp add: append_result parsed_costs_def sample_cache_def emit_def updated_costs_def
        try_then_def table_without_count_def sample_table_def)

lemma sample_scan_goes_on:
  "fst (scan_pools sample_chain 500 [''0xA'', ''0xD''] sample_cache) = Inr ()"
  "count_list (events_since sample_cache (snd (scan_pools sample_chain 500 [''0xA'', ''0xD''] sample_cache)))
     (Computing ''0xD'') = 1"
  by code_simp+

theorem scan_catches_single_pool_propagates_witness:
  "get_gas_table_for_stableswap_pool sample_chain \<lparr>address = ''0xA'', shown = ''0xA''\<rparr> 500
     = Inl (Upstream ''timeout'')
   \<and> scan_pools sample_chain 500 [''0xA'', ''0xD''] sample_cache
       = scan_pools sample_chain 500 [''0xD'']
           (report_and_move_on ''0xA'' (Upstream ''timeout'') (emit (Computing ''0xA'') sample_cache))
   \<and> fst (scan_pools sample_chain 500 [''0xA'', ''0xD''] sample_cache) = Inr ()
   \<and> count_list (events_since sample_cache
          (snd (scan_pools sample_chain 500 [''0xA'', ''0xD''] sample_cache))) (Computing ''0xD'') = 1
   \<and> fst (append_gas_table_to_output_file STABLESWAP_GAS_TABLE_FILE ''0xB'' table_without_count
            (emit (Computing ''0xB'') sample_cache)) = Inl (KeyError ''count'')
   \<and> scan_pools sample_chain 500 [''0xB'', ''0xD''] sample_cache
       = scan_pools sample_chain 500 [''0xD'']
           (report_and_move_on ''0xB'' (KeyError ''count'')
              (snd (append_gas_table_to_output_file STABLESWAP_GAS_TABLE_FILE ''0xB''
                      table_without_count (emit (Computing ''0xB'') sample_cache))))
   \<and> fst (get_gas_costs_for_stableswap_pool sample_chain ''0xA'' 100 200 sample_cache)
       = Inl (Upstream ''timeout'')
   \<and> fst (get_gas_costs_for_stableswap_pool sample_chain ''0xB'' 100 200 sample_cache)
       = Inl (KeyError ''count'')"
proof -
  let ?A = "\<lparr>address = ''0xA'', shown = ''0xA''\<rparr>"
  let ?B = "\<lparr>address = ''0xB'', shown = ''0xB''\<rparr>"
  let ?wB = "snd (append_gas_table_to_output_file STABLESWAP_GAS_TABLE_FILE ''0xB''
                    table_without_count (emit (Computing ''0xB'') sample_cache))"
  have cA: "Contract sample_chain ''0xA'' = Inr ?A" by (rule sample_contract)
  have cB: "Contract sample_chain ''0xB'' = Inr ?B" by (rule sample_contract)
  have hA: "get_gas_table_for_stableswap_pool sample_chain ?A 500 = Inl (Upstream ''timeout'')"
    by (simp only: sample_chain_helpers sample_helper_A)
  have hA': "get_gas_table_for_stableswap_pool_in_block_range sample_chain ?A 100 200
               = Inl (Upstream ''timeout'')"
    by (simp only: sample_chain_helpers sample_helper_A)
  have hB: "get_gas_table_for_stableswap_pool sample_chain ?B 500 = Inr table_without_count"
    by (simp only: sample_chain_helpers sample_helper_B)
  have hB': "get_gas_table_for_stableswap_pool_in_block_range sample_chain ?B 100 200
               = Inr table_without_count"
    by (simp only: sample_chain_helpers sample_helper_B)
  have tB: "py_bool table_without_count" by (simp add: table_without_count_def)
  have mB: "append_gas_table_to_output_file STABLESWAP_GAS_TABLE_FILE ''0xB'' table_without_count
              (emit (Computing ''0xB'') sample_cache) = (Inl (KeyError ''count''), ?wB)"
    using sample_merge_without_count by (simp add: prod_eq_iff)
  have mB': "append_gas_table_to_output_file STABLESWAP_GAS_TABLE_FILE (address ?B) table_without_count
              (emit (Computing (address ?B)) sample_cache) = (Inl (KeyError ''count''), ?wB)"
    using mB by simp
  have r1: "scan_pools sample_chain 500 [''0xA'', ''0xD''] sample_cache
       = scan_pools sample_chain 500 [''0xD'']
           (report_and_move_on ''0xA'' (Upstream ''timeout'') (emit (Computing ''0xA'') sample_cache))"
    using cA hA
    by (intro scan_catches_single_pool_propagates
                [of sample_chain "''0xA''" ?A 500 "Upstream ''timeout''" "[''0xD'']" sample_cache,
                 THEN conjunct1, rule_format] conjI)
  have r2: "scan_pools sample_chain 500 [''0xB'', ''0xD''] sample_cache
       = scan_pools sample_chain 500 [''0xD''] (report_and_move_on ''0xB'' (KeyError ''count'') ?wB)"
    using cB hB tB mB
    by (intro scan_catches_single_pool_propagates
                [of sample_chain "''0xB''" ?B 500 "KeyError ''count''" "[''0xD'']" sample_cache
                    table_without_count ?wB,
                 THEN conjunct2, THEN conjunct1, rule_format] conjI)
  have "get_gas_costs_for_stableswap_pool sample_chain ''0xA'' 100 200 sample_cache
          = (Inl (Upstream ''timeout''), emit (Computing (address ?A)) sample_cache)"
    using cA hA'
    by (intro scan_catches_single_pool_propagates
                [of sample_chain "''0xA''" ?A _ "Upstream ''timeout''" _ sample_cache _ _ 100 200,
                 THEN conjunct2, THEN conjunct2, THEN conjunct1, rule_format] conjI)
  then have r3: "fst (get_gas_costs_for_stableswap_pool sample_chain ''0xA'' 100 200 sample_cache)
       = Inl (Upstream ''timeout'')"
    by simp
  have "get_gas_costs_for_stableswap_pool sample_chain ''0xB'' 100 200 sample_cache
          = (Inl (KeyError ''count''), ?wB)"
    using cB hB' tB mB'
    by (intro scan_catches_single_pool_propagates
                [of sample_chain "''0xB''" ?B _ "KeyError ''count''" _ sample_cache
                    table_without_count ?wB 100 200,
                 THEN conjunct2, THEN conjunct2, THEN conjunct2, rule_format] conjI)
  then have r4: "fst (get_gas_costs_for_stableswap_pool sample_chain ''0xB'' 100 200 sample_cache)
       = Inl (KeyError ''count'')"
    by simp
  from hA r1 sample_scan_goes_on sample_merge_without_count r2 r3 r4 show ?thesis
    by (intro conjI)
qed


lemma tx_adds:
  "\<exists>evs. get_gas_costs_tx ch contractaddr tx w
            = (fst (get_gas_costs_tx ch contractaddr tx w), w\<lparr>trace := trace w @ evs\<rparr>)
     \<and> list_all (\<lambda>ev. \<not> is_file_access ev) evs"
proof (cases "Contract ch contractaddr")
  case (Inl e)
  then have "get_gas_costs_tx ch contractaddr tx w = (Inl e, w\<lparr>trace := trace w @ []\<rparr>)"
    by (simp add: get_gas_costs_tx_def)
  then show ?thesis by (intro exI [of _ "[]"]) simp
next
  case c: (Inr contract)
  show ?thesis
  proof (cases "get_calltree ch tx")
    case (Inl e)
    with c have "get_gas_costs_tx ch contractaddr tx w = (Inl e, w\<lparr>trace := trace w @ []\<rparr>)"
      by (simp add: get_gas_costs_tx_def)
    then show ?thesis by (intro exI [of _ "[]"]) simp
  next
    case t: (Inr call_tree)
    show ?thesis
    proof (cases "parse_as_tree ch call_tree [address contract]")
      case (Inl e)
      with c t have "get_gas_costs_tx ch contractaddr tx w = (Inl e, w\<lparr>trace := trace w @ []\<rparr>)"
        by (simp add: get_gas_costs_tx_def)
      then show ?thesis by (intro exI [of _ "[]"]) simp
    next
      case r: (Inr rich)
      let ?three = "[Print (''Call trace for [bold blue]'' @ [CHR 39] @ tx @ [CHR 39] @ ''[/]''),
                     Print rich,
                     Print ([CHR 10] @ ''Gas consumed per method for [red]''
                              @ [CHR 39] @ shown contract @ [CHR 39] @ '':'')]"
      show ?thesis
      proof (cases "get_avg_gas_cost_per_method_for_tx ch contract call_tree")
        case (Inl e)
        with c t r have "get_gas_costs_tx ch contractaddr tx w
                           = (Inl e, w\<lparr>trace := trace w @ ?three\<rparr>)"
          by (simp add: get_gas_costs_tx_def emit_def)
        then show ?thesis by (intro exI [of _ ?three]) (simp add: is_file_access_def)
      next
        case (Inr gas_cost)
        with c t r have "get_gas_costs_tx ch contractaddr tx w
                           = (Inr (), w\<lparr>trace := trace w @ (?three @ [PrintJson gas_cost])\<rparr>)"
          by (simp add: get_gas_costs_tx_def emit_def)
        then show ?thesis
          by (intro exI [of _ "?three @ [PrintJson gas_cost]"]) (simp add: is_file_access_def)
      qed
    qed
  qed
qed

text \<open>
  C8. The single-transaction command changes no file and opens none, whatever its
  outcome; when its helpers answer, it ends normally after printing the call tree and the
  gas used per method.
\<close>

theorem tx_mode_leaves_cache:
  "files (snd (get_gas_costs_tx ch contractaddr tx w)) = files w
   \<and> list_all (\<lambda>ev. \<not> is_file_access ev)
        (events_since w (snd (get_gas_costs_tx ch contractaddr tx w)))
   \<and> (Contract ch contractaddr = Inr contract \<and> get_calltree ch tx = Inr call_tree
        \<and> parse_as_tree ch call_tree [address contract] = Inr rich_call_tree
        \<and> get_avg_gas_cost_per_method_for_tx ch contract call_tree = Inr gas_cost \<longrightarrow>
          fst (get_gas_costs_tx ch contractaddr tx w) = Inr ()
        \<and> events_since w (snd (get_gas_costs_tx ch contractaddr tx w))
            = [Print (''Call trace for [bold blue]'' @ [CHR 39] @ tx @ [CHR 39] @ ''[/]''),
               Print rich_call_tree,
               Print ([CHR 10] @ ''Gas consumed per method for [red]''
                        @ [CHR 39] @ shown contract @ [CHR 39] @ '':''),
               PrintJson gas_cost])"
proof -
  from tx_adds [of ch contractaddr tx w] obtain evs where evs:
    "get_gas_costs_tx ch contractaddr tx w
       = (fst (get_gas_costs_tx ch contractaddr tx w), w\<lparr>trace := trace w @ evs\<rparr>)"
    "list_all (\<lambda>ev. \<not> is_file_access ev) evs"
    by blast
  from evs(1) have s: "snd (get_gas_costs_tx ch contractaddr tx w) = w\<lparr>trace := trace w @ evs\<rparr>"
    by (metis snd_conv)
  have "files (snd (get_gas_costs_tx ch contractaddr tx w)) = files w"
    by (simp add: s)
  moreover have "list_all (\<lambda>ev. \<not> is_file_access ev)
        (events_since w (snd (get_gas_costs_tx ch contractaddr tx w)))"
    using evs(2) by (simp add: s events_since_def)
  moreover have "Contract ch contractaddr = Inr contract \<and> get_calltree ch tx = Inr call_tree
        \<and> parse_as_tree ch call_tree [address contract] = Inr rich_call_tree
        \<and> get_avg_gas_cost_per_method_for_tx ch contract call_tree = Inr gas_cost \<longrightarrow>
          fst (get_gas_costs_tx ch contractaddr tx w) = Inr ()
        \<and> events_since w (snd (get_gas_costs_tx ch contractaddr tx w))
            = [Print (''Call trace for [bold blue]'' @ [CHR 39] @ tx @ [CHR 39] @ ''[/]''),
               Print rich_call_tree,
               Print ([CHR 10] @ ''Gas consumed per method for [red]''
                        @ [CHR 39] @ shown contract @ [CHR 39] @ '':''),
               PrintJson gas_cost]"
    by (simp add: get_gas_costs_tx_def events_since_def emit_def)
  ultimately show ?thesis by (intro conjI)
qed


lemma sample_chain_tx:
  "get_calltree sample_chain tx = Inr ()"
  "parse_as_tree sample_chain call_tree addresses = Inr ''exchange [120000 gas]''"
  "get_avg_gas_cost_per_method_for_tx sample_chain contract call_tree
     = Inr (JDict [(''exchange'', JInt 120000)])"
  by (simp_all add: sample_chain_def)

theorem tx_mode_leaves_cache_witness:
  "Contract sample_chain ''0xB'' = Inr \<lparr>address = ''0xB'', shown = ''0xB''\<rparr>
   \<and> get_calltree sample_chain ''0xdeadbeef'' = Inr ()
   \<and> parse_as_tree sample_chain () [''0xB''] = Inr ''exchange [120000 gas]''
   \<and> get_avg_gas_cost_per_method_for_tx sample_chain \<lparr>address = ''0xB'', shown = ''0xB''\<rparr> ()
        = Inr (JDict [(''exchange'', JInt 120000)])
   \<and> files (snd (get_gas_costs_tx sample_chain ''0xB'' ''0xdeadbeef'' sample_cache))
        = files sample_cache
   \<and> fst (get_gas_costs_tx sample_chain ''0xB'' ''0xdeadbeef'' sample_cache) = Inr ()
   \<and> events_since sample_cache (snd (get_gas_costs_tx sample_chain ''0xB'' ''0xdeadbeef'' sample_cache))
        = [Print (''Call trace for [bold blue]'' @ [CHR 39] @ ''0xdeadbeef'' @ [CHR 39] @ ''[/]''),
           Print ''exchange [120000 gas]'',
           Print ([CHR 10] @ ''Gas consumed per method for [red]'' @ [CHR 39] @ ''0xB'' @ [CHR 39] @ '':''),
           PrintJson (JDict [(''exchange'', JInt 120000)])]"
proof -
  let ?B = "\<lparr>address = ''0xB'', shown = ''0xB''\<rparr>"
  have c: "Contract sample_chain ''0xB'' = Inr ?B" by (rule sample_contract)
  have t: "get_calltree sample_chain ''0xdeadbeef'' = Inr ()" by (rule sample_chain_tx)
  have r: "parse_as_tree sample_chain () [''0xB''] = Inr ''exchange [120000 gas]''"
    by (rule sample_chain_tx)
  have r': "parse_as_tree sample_chain () [address ?B] = Inr ''exchange [120000 gas]''"
    by (rule sample_chain_tx)
  have g: "get_avg_gas_cost_per_method_for_tx sample_chain ?B ()
             = Inr (JDict [(''exchange'', JInt 120000)])"
    by (rule sample_chain_tx)
  note inst = tx_mode_leaves_cache
      [of sample_chain "''0xB''" "''0xdeadbeef''" sample_cache ?B "()" "''exchange [120000 gas]''"
          "JDict [(''exchange'', JInt 120000)]"]
  have hyp: "Contract sample_chain ''0xB'' = Inr ?B \<and> get_calltree sample_chain ''0xdeadbeef'' = Inr ()
        \<and> parse_as_tree sample_chain () [address ?B] = Inr ''exchange [120000 gas]''
        \<and> get_avg_gas_cost_per_method_for_tx sample_chain ?B () = Inr (JDict [(''exchange'', JInt 120000)])"
    using c t r' g by (intro conjI)
  note ok = inst [THEN conjunct2, THEN conjunct2, rule_format, OF hyp]
  have sh: "shown ?B = ''0xB''" by simp
  from c t r g inst [THEN conjunct1] ok [THEN conjunct1] ok [THEN conjunct2, unfolded sh]
  show ?thesis by (intro conjI)
qed

end
